theory Spec2Isabelle
  imports Complex_Main "HOL-Library.Sublist"
begin

section \<open>Documents and Python values\<close>

text \<open>
  A program document, and the dict that \<open>to_dsl_dict\<close> returns, are Python values built
  from \<open>None\<close>, booleans, numbers, strings, lists and string-keyed dicts. A dict is an
  association list in insertion order; a document that came out of a JSON parser has
  pairwise distinct keys in every dict (\<open>wf_json\<close>). A \<open>char\<close> stands for one code
  point below 256.
\<close>

datatype json =
    JNull
  | JBool bool
  | JInt int
  | JFloat rat
  | JStr string
  | JList "json list"
  | JObj "(string \<times> json) list"


text \<open>Python truthiness, as \<open>if json_program:\<close> and \<open>if self.actions\<close> test it.\<close>

fun truthy :: "json \<Rightarrow> bool" where
  "truthy JNull = False"
| "truthy (JBool b) = b"
| "truthy (JInt i) = (i \<noteq> 0)"
| "truthy (JFloat r) = (r \<noteq> 0)"
| "truthy (JStr s) = (s \<noteq> [])"
| "truthy (JList xs) = (xs \<noteq> [])"
| "truthy (JObj kvs) = (kvs \<noteq> [])"

section \<open>Schema validation\<close>

text \<open>
  The classes of \<open>structured_program.py\<close> are pydantic models: each declares its fields,
  their types and defaults, and \<open>extra="forbid"\<close>. Validating a document against a class
  checks every declared field, collects one error per offending location, and yields the
  model instance only when no error was collected. The combinators below are the field types
  that the classes use, read on documents: \<open>str\<close>, \<open>bool\<close> (in pydantic's default lax
  mode), \<open>Optional\<close>, \<open>List\<close>, \<open>Dict[str, _]\<close>, \<open>Literal\<close> and the two unions.
\<close>

datatype loc_item = Key string | Index nat

datatype error_type =
    Missing
  | Extra_forbidden
  | String_type
  | Bool_type
  | Bool_parsing
  | List_type
  | Dict_type
  | Model_type
  | Literal_error

type_synonym error_details = "(loc_item list \<times> error_type) list"

type_synonym 'a validated = "error_details + 'a"

definition fail :: "error_type \<Rightarrow> 'a validated" where
  "fail t = Inl [([], t)]"

definition nested :: "loc_item \<Rightarrow> error_details \<Rightarrow> error_details" where
  "nested l e = map (\<lambda>(p, t). (l # p, t)) e"

definition under :: "loc_item \<Rightarrow> 'a validated \<Rightarrow> 'a validated" where
  "under l r = map_sum (nested l) id r"

fun both :: "'a validated \<Rightarrow> 'b validated \<Rightarrow> ('a \<times> 'b) validated" where
  "both (Inr a) (Inr b) = Inr (a, b)"
| "both (Inl e) (Inr b) = Inl e"
| "both (Inr a) (Inl e) = Inl e"
| "both (Inl e) (Inl e') = Inl (e @ e')"

definition str_v :: "json \<Rightarrow> string validated" where
  "str_v j = (case j of JStr s \<Rightarrow> Inr s | _ \<Rightarrow> fail String_type)"

definition ascii_lower :: "char \<Rightarrow> char" where
  "ascii_lower c =
     (if (65::nat) \<le> of_char c \<and> of_char c \<le> (90::nat) then char_of (of_char c + (32::nat)) else c)"

definition bool_v :: "json \<Rightarrow> bool validated" where
  "bool_v j =
     (case j of
        JBool b \<Rightarrow> Inr b
      | JInt i \<Rightarrow>
          (if i = 0 then Inr False else if i = 1 then Inr True
           else if - (2 ^ 63) \<le> i \<and> i < 2 ^ 63 then fail Bool_parsing
           else fail Bool_type)
      | JFloat r \<Rightarrow>
          (if r = 0 then Inr False else if r = 1 then Inr True
           else if r = of_int \<lfloor>r\<rfloor> then fail Bool_parsing
           else fail Bool_type)
      | JStr s \<Rightarrow>
          (let l = map ascii_lower s in
           if l \<in> set [''0'', ''off'', ''f'', ''false'', ''n'', ''no''] then Inr False
           else if l \<in> set [''1'', ''on'', ''t'', ''true'', ''y'', ''yes''] then Inr True
           else fail Bool_parsing)
      | _ \<Rightarrow> fail Bool_type)"

definition literal_v :: "string list \<Rightarrow> json \<Rightarrow> string validated" where
  "literal_v allowed j =
     (case j of
        JStr s \<Rightarrow> (if s \<in> set allowed then Inr s else fail Literal_error)
      | _ \<Rightarrow> fail Literal_error)"

definition optional_v :: "(json \<Rightarrow> 'a validated) \<Rightarrow> json \<Rightarrow> 'a option validated" where
  "optional_v f j = (case j of JNull \<Rightarrow> Inr None | _ \<Rightarrow> map_sum id Some (f j))"

fun items_v :: "(json \<Rightarrow> 'a validated) \<Rightarrow> nat \<Rightarrow> json list \<Rightarrow> 'a list validated" where
  "items_v f i [] = Inr []"
| "items_v f i (x # xs) =
     map_sum id (\<lambda>(y, ys). y # ys) (both (under (Index i) (f x)) (items_v f (Suc i) xs))"

definition list_v :: "(json \<Rightarrow> 'a validated) \<Rightarrow> json \<Rightarrow> 'a list validated" where
  "list_v f j = (case j of JList xs \<Rightarrow> items_v f 0 xs | _ \<Rightarrow> fail List_type)"

fun entries_v :: "(json \<Rightarrow> 'a validated) \<Rightarrow> (string \<times> json) list \<Rightarrow> (string \<times> 'a) list validated" where
  "entries_v f [] = Inr []"
| "entries_v f ((k, x) # kvs) =
     map_sum id (\<lambda>(y, ys). (k, y) # ys) (both (under (Key k) (f x)) (entries_v f kvs))"

definition dict_v :: "(json \<Rightarrow> 'a validated) \<Rightarrow> json \<Rightarrow> (string \<times> 'a) list validated" where
  "dict_v f j = (case j of JObj kvs \<Rightarrow> entries_v f kvs | _ \<Rightarrow> fail Dict_type)"

text \<open>
  A field without a default is required; a field with a default takes it when the key is
  absent. With \<open>extra="forbid"\<close> every key of the dict that is not a declared field is an
  error of its own.
\<close>

definition required :: "string \<Rightarrow> (json \<Rightarrow> 'a validated) \<Rightarrow> (string \<times> json) list \<Rightarrow> 'a validated" where
  "required k f kvs =
     (case map_of kvs k of None \<Rightarrow> Inl [([Key k], Missing)] | Some j \<Rightarrow> under (Key k) (f j))"

definition with_default :: "'a \<Rightarrow> string \<Rightarrow> (json \<Rightarrow> 'a validated) \<Rightarrow> (string \<times> json) list \<Rightarrow> 'a validated" where
  "with_default d k f kvs =
     (case map_of kvs k of None \<Rightarrow> Inr d | Some j \<Rightarrow> under (Key k) (f j))"

definition extra_keys :: "string list \<Rightarrow> (string \<times> json) list \<Rightarrow> string list" where
  "extra_keys fields kvs = filter (\<lambda>k. k \<notin> set fields) (map fst kvs)"

definition forbid_extra :: "string list \<Rightarrow> (string \<times> json) list \<Rightarrow> unit validated" where
  "forbid_extra fields kvs =
     (if extra_keys fields kvs = [] then Inr ()
      else Inl (map (\<lambda>k. ([Key k], Extra_forbidden)) (extra_keys fields kvs)))"

text \<open>
  A union is tried member by member, left to right; when every member fails, the errors of
  all members are reported, each under the member's tag.
\<close>

definition union_v ::
  "string \<Rightarrow> (json \<Rightarrow> 'a validated) \<Rightarrow> string \<Rightarrow> (json \<Rightarrow> 'b validated) \<Rightarrow> json \<Rightarrow> ('a + 'b) validated" where
  "union_v ta f tb g j =
     (case f j of
        Inr a \<Rightarrow> Inr (Inl a)
      | Inl e \<Rightarrow>
          (case g j of
             Inr b \<Rightarrow> Inr (Inr b)
           | Inl e' \<Rightarrow> Inl (nested (Key ta) e @ nested (Key tb) e')))"

section \<open>The classes of structured\_program.py\<close>

record SortDefinition =
  sd_name :: string
  sd_type :: string
  sd_values :: "string list option"
  sd_description :: "string option"

record FunctionDefinition =
  fd_name :: string
  fd_domain :: "string list"
  fd_range :: string
  fd_description :: "string option"

record VariableDefinition =
  vd_name :: string
  vd_sort :: string
  vd_description :: "string option"

record KnowledgeAssertion =
  ka_assertion :: string
  ka_value :: bool
  ka_description :: "string option"

type_synonym KnowledgeEntry = "string + KnowledgeAssertion"

record QuantifiedVariable =
  qv_name :: string
  qv_sort :: string

record RuleImplication =
  ri_antecedent :: string
  ri_consequent :: string

record RuleDefinition =
  rd_name :: "string option"
  rd_forall :: "QuantifiedVariable list option"
  rd_implies :: "RuleImplication option"
  rd_constraint :: "string option"
  rd_description :: "string option"

record VerificationImplication =
  vi_antecedent :: string
  vi_consequent :: string

record VerificationDefinition =
  ver_name :: "string option"
  ver_constraint :: "string option"
  ver_exists :: "QuantifiedVariable list option"
  ver_forall :: "QuantifiedVariable list option"
  ver_implies :: "VerificationImplication option"
  ver_description :: "string option"

record ObjectiveDefinition =
  od_type :: string
  od_expression :: string

record OptimizationConfig =
  oc_variables :: "VariableDefinition list"
  oc_constraints :: "string list"
  oc_objectives :: "ObjectiveDefinition list"
  oc_description :: "string option"

record ConstantDefinition =
  cd_sort :: string
  cd_members :: "string list + (string \<times> string) list"
  cd_description :: "string option"

record StructuredProgram =
  sp_sorts :: "SortDefinition list"
  sp_functions :: "FunctionDefinition list"
  sp_constants :: "(string \<times> ConstantDefinition) list"
  sp_variables :: "VariableDefinition list"
  sp_knowledge_base :: "KnowledgeEntry list"
  sp_rules :: "RuleDefinition list"
  sp_verifications :: "VerificationDefinition list"
  sp_optimization :: "OptimizationConfig option"
  sp_actions :: "string list"

subsection \<open>Declared fields\<close>

definition SortDefinition_fields :: "string list" where
  "SortDefinition_fields = [''name'', ''type'', ''values'', ''description'']"

definition FunctionDefinition_fields :: "string list" where
  "FunctionDefinition_fields = [''name'', ''domain'', ''range'', ''description'']"

definition VariableDefinition_fields :: "string list" where
  "VariableDefinition_fields = [''name'', ''sort'', ''description'']"

definition KnowledgeAssertion_fields :: "string list" where
  "KnowledgeAssertion_fields = [''assertion'', ''value'', ''description'']"

definition QuantifiedVariable_fields :: "string list" where
  "QuantifiedVariable_fields = [''name'', ''sort'']"

definition RuleImplication_fields :: "string list" where
  "RuleImplication_fields = [''antecedent'', ''consequent'']"

definition RuleDefinition_fields :: "string list" where
  "RuleDefinition_fields = [''name'', ''forall'', ''implies'', ''constraint'', ''description'']"

definition VerificationImplication_fields :: "string list" where
  "VerificationImplication_fields = [''antecedent'', ''consequent'']"

definition VerificationDefinition_fields :: "string list" where
  "VerificationDefinition_fields =
     [''name'', ''constraint'', ''exists'', ''forall'', ''implies'', ''description'']"

definition ObjectiveDefinition_fields :: "string list" where
  "ObjectiveDefinition_fields = [''type'', ''expression'']"

definition OptimizationConfig_fields :: "string list" where
  "OptimizationConfig_fields = [''variables'', ''constraints'', ''objectives'', ''description'']"

definition ConstantDefinition_fields :: "string list" where
  "ConstantDefinition_fields = [''sort'', ''members'', ''description'']"

definition StructuredProgram_fields :: "string list" where
  "StructuredProgram_fields =
     [''sorts'', ''functions'', ''constants'', ''variables'', ''knowledge_base'', ''rules'',
      ''verifications'', ''optimization'', ''actions'']"

subsection \<open>Validators, one per class\<close>

definition validate_SortDefinition :: "json \<Rightarrow> SortDefinition validated" where
  "validate_SortDefinition j =
     (case j of
        JObj kvs \<Rightarrow>
          map_sum id
            (\<lambda>(n, t, v, d, u). \<lparr>sd_name = n, sd_type = t, sd_values = v, sd_description = d\<rparr>)
            (both (required ''name'' str_v kvs)
            (both (required ''type'' str_v kvs)
            (both (with_default None ''values'' (optional_v (list_v str_v)) kvs)
            (both (with_default None ''description'' (optional_v str_v) kvs)
                  (forbid_extra SortDefinition_fields kvs)))))
      | _ \<Rightarrow> fail Model_type)"

definition validate_FunctionDefinition :: "json \<Rightarrow> FunctionDefinition validated" where
  "validate_FunctionDefinition j =
     (case j of
        JObj kvs \<Rightarrow>
          map_sum id
            (\<lambda>(n, dom, r, d, u). \<lparr>fd_name = n, fd_domain = dom, fd_range = r, fd_description = d\<rparr>)
            (both (required ''name'' str_v kvs)
            (both (required ''domain'' (list_v str_v) kvs)
            (both (required ''range'' str_v kvs)
            (both (with_default None ''description'' (optional_v str_v) kvs)
                  (forbid_extra FunctionDefinition_fields kvs)))))
      | _ \<Rightarrow> fail Model_type)"

definition validate_VariableDefinition :: "json \<Rightarrow> VariableDefinition validated" where
  "validate_VariableDefinition j =
     (case j of
        JObj kvs \<Rightarrow>
          map_sum id
            (\<lambda>(n, s, d, u). \<lparr>vd_name = n, vd_sort = s, vd_description = d\<rparr>)
            (both (required ''name'' str_v kvs)
            (both (required ''sort'' str_v kvs)
            (both (with_default None ''description'' (optional_v str_v) kvs)
                  (forbid_extra VariableDefinition_fields kvs))))
      | _ \<Rightarrow> fail Model_type)"

definition validate_KnowledgeAssertion :: "json \<Rightarrow> KnowledgeAssertion validated" where
  "validate_KnowledgeAssertion j =
     (case j of
        JObj kvs \<Rightarrow>
          map_sum id
            (\<lambda>(a, v, d, u). \<lparr>ka_assertion = a, ka_value = v, ka_description = d\<rparr>)
            (both (required ''assertion'' str_v kvs)
            (both (with_default True ''value'' bool_v kvs)
            (both (with_default None ''description'' (optional_v str_v) kvs)
                  (forbid_extra KnowledgeAssertion_fields kvs))))
      | _ \<Rightarrow> fail Model_type)"

definition validate_KnowledgeEntry :: "json \<Rightarrow> KnowledgeEntry validated" where
  "validate_KnowledgeEntry =
     union_v ''str'' str_v ''KnowledgeAssertion'' validate_KnowledgeAssertion"

definition validate_QuantifiedVariable :: "json \<Rightarrow> QuantifiedVariable validated" where
  "validate_QuantifiedVariable j =
     (case j of
        JObj kvs \<Rightarrow>
          map_sum id
            (\<lambda>(n, s, u). \<lparr>qv_name = n, qv_sort = s\<rparr>)
            (both (required ''name'' str_v kvs)
            (both (required ''sort'' str_v kvs)
                  (forbid_extra QuantifiedVariable_fields kvs)))
      | _ \<Rightarrow> fail Model_type)"

definition validate_RuleImplication :: "json \<Rightarrow> RuleImplication validated" where
  "validate_RuleImplication j =
     (case j of
        JObj kvs \<Rightarrow>
          map_sum id
            (\<lambda>(a, c, u). \<lparr>ri_antecedent = a, ri_consequent = c\<rparr>)
            (both (required ''antecedent'' str_v kvs)
            (both (required ''consequent'' str_v kvs)
                  (forbid_extra RuleImplication_fields kvs)))
      | _ \<Rightarrow> fail Model_type)"

definition validate_RuleDefinition :: "json \<Rightarrow> RuleDefinition validated" where
  "validate_RuleDefinition j =
     (case j of
        JObj kvs \<Rightarrow>
          map_sum id
            (\<lambda>(n, f, i, c, d, u).
               \<lparr>rd_name = n, rd_forall = f, rd_implies = i, rd_constraint = c, rd_description = d\<rparr>)
            (both (with_default None ''name'' (optional_v str_v) kvs)
            (both (with_default None ''forall'' (optional_v (list_v validate_QuantifiedVariable)) kvs)
            (both (with_default None ''implies'' (optional_v validate_RuleImplication) kvs)
            (both (with_default None ''constraint'' (optional_v str_v) kvs)
            (both (with_default None ''description'' (optional_v str_v) kvs)
                  (forbid_extra RuleDefinition_fields kvs))))))
      | _ \<Rightarrow> fail Model_type)"

definition validate_VerificationImplication :: "json \<Rightarrow> VerificationImplication validated" where
  "validate_VerificationImplication j =
     (case j of
        JObj kvs \<Rightarrow>
          map_sum id
            (\<lambda>(a, c, u). \<lparr>vi_antecedent = a, vi_consequent = c\<rparr>)
            (both (required ''antecedent'' str_v kvs)
            (both (required ''consequent'' str_v kvs)
                  (forbid_extra VerificationImplication_fields kvs)))
      | _ \<Rightarrow> fail Model_type)"

definition validate_VerificationDefinition :: "json \<Rightarrow> VerificationDefinition validated" where
  "validate_VerificationDefinition j =
     (case j of
        JObj kvs \<Rightarrow>
          map_sum id
            (\<lambda>(n, c, e, f, i, d, u).
               \<lparr>ver_name = n, ver_constraint = c, ver_exists = e, ver_forall = f,
                ver_implies = i, ver_description = d\<rparr>)
            (both (with_default None ''name'' (optional_v str_v) kvs)
            (both (with_default None ''constraint'' (optional_v str_v) kvs)
            (both (with_default None ''exists'' (optional_v (list_v validate_QuantifiedVariable)) kvs)
            (both (with_default None ''forall'' (optional_v (list_v validate_QuantifiedVariable)) kvs)
            (both (with_default None ''implies'' (optional_v validate_VerificationImplication) kvs)
            (both (with_default None ''description'' (optional_v str_v) kvs)
                  (forbid_extra VerificationDefinition_fields kvs)))))))
      | _ \<Rightarrow> fail Model_type)"

definition validate_ObjectiveDefinition :: "json \<Rightarrow> ObjectiveDefinition validated" where
  "validate_ObjectiveDefinition j =
     (case j of
        JObj kvs \<Rightarrow>
          map_sum id
            (\<lambda>(t, e, u). \<lparr>od_type = t, od_expression = e\<rparr>)
            (both (required ''type'' (literal_v [''maximize'', ''minimize'']) kvs)
            (both (required ''expression'' str_v kvs)
                  (forbid_extra ObjectiveDefinition_fields kvs)))
      | _ \<Rightarrow> fail Model_type)"

definition validate_OptimizationConfig :: "json \<Rightarrow> OptimizationConfig validated" where
  "validate_OptimizationConfig j =
     (case j of
        JObj kvs \<Rightarrow>
          map_sum id
            (\<lambda>(v, c, ob, d, u).
               \<lparr>oc_variables = v, oc_constraints = c, oc_objectives = ob, oc_description = d\<rparr>)
            (both (with_default [] ''variables'' (list_v validate_VariableDefinition) kvs)
            (both (with_default [] ''constraints'' (list_v str_v) kvs)
            (both (with_default [] ''objectives'' (list_v validate_ObjectiveDefinition) kvs)
            (both (with_default None ''description'' (optional_v str_v) kvs)
                  (forbid_extra OptimizationConfig_fields kvs)))))
      | _ \<Rightarrow> fail Model_type)"

definition validate_ConstantDefinition :: "json \<Rightarrow> ConstantDefinition validated" where
  "validate_ConstantDefinition j =
     (case j of
        JObj kvs \<Rightarrow>
          map_sum id
            (\<lambda>(s, m, d, u). \<lparr>cd_sort = s, cd_members = m, cd_description = d\<rparr>)
            (both (required ''sort'' str_v kvs)
            (both (required ''members''
                     (union_v ''list[str]'' (list_v str_v) ''dict[str,str]'' (dict_v str_v)) kvs)
            (both (with_default None ''description'' (optional_v str_v) kvs)
                  (forbid_extra ConstantDefinition_fields kvs))))
      | _ \<Rightarrow> fail Model_type)"

definition validate_StructuredProgram :: "json \<Rightarrow> StructuredProgram validated" where
  "validate_StructuredProgram j =
     (case j of
        JObj kvs \<Rightarrow>
          map_sum id
            (\<lambda>(s, f, c, v, k, r, ve, opt, a, u).
               \<lparr>sp_sorts = s, sp_functions = f, sp_constants = c, sp_variables = v,
                sp_knowledge_base = k, sp_rules = r, sp_verifications = ve,
                sp_optimization = opt, sp_actions = a\<rparr>)
            (both (with_default [] ''sorts'' (list_v validate_SortDefinition) kvs)
            (both (with_default [] ''functions'' (list_v validate_FunctionDefinition) kvs)
            (both (with_default [] ''constants'' (dict_v validate_ConstantDefinition) kvs)
            (both (with_default [] ''variables'' (list_v validate_VariableDefinition) kvs)
            (both (with_default [] ''knowledge_base'' (list_v validate_KnowledgeEntry) kvs)
            (both (with_default [] ''rules'' (list_v validate_RuleDefinition) kvs)
            (both (with_default [] ''verifications'' (list_v validate_VerificationDefinition) kvs)
            (both (with_default None ''optimization'' (optional_v validate_OptimizationConfig) kvs)
            (both (with_default [] ''actions'' (list_v str_v) kvs)
                  (forbid_extra StructuredProgram_fields kvs))))))))))
      | _ \<Rightarrow> fail Model_type)"

section \<open>to\_dsl\_dict\<close>

text \<open>
  \<open>dump_model\<close> is \<open>model_dump(mode="python", exclude_none=True)\<close>: a dict of the
  declared fields in declaration order, nested models dumped the same way, and every field
  whose value is \<open>None\<close> left out.
\<close>

definition unless_none :: "string \<Rightarrow> ('a \<Rightarrow> json) \<Rightarrow> 'a option \<Rightarrow> (string \<times> json) list" where
  "unless_none k f v = (case v of None \<Rightarrow> [] | Some x \<Rightarrow> [(k, f x)])"

definition str_list :: "string list \<Rightarrow> json" where
  "str_list xs = JList (map JStr xs)"

definition dump_SortDefinition :: "SortDefinition \<Rightarrow> json" where
  "dump_SortDefinition s =
     JObj ([(''name'', JStr (sd_name s)), (''type'', JStr (sd_type s))]
           @ unless_none ''values'' str_list (sd_values s)
           @ unless_none ''description'' JStr (sd_description s))"

definition dump_FunctionDefinition :: "FunctionDefinition \<Rightarrow> json" where
  "dump_FunctionDefinition f =
     JObj ([(''name'', JStr (fd_name f)), (''domain'', str_list (fd_domain f)),
            (''range'', JStr (fd_range f))]
           @ unless_none ''description'' JStr (fd_description f))"

definition dump_VariableDefinition :: "VariableDefinition \<Rightarrow> json" where
  "dump_VariableDefinition v =
     JObj ([(''name'', JStr (vd_name v)), (''sort'', JStr (vd_sort v))]
           @ unless_none ''description'' JStr (vd_description v))"

definition dump_KnowledgeAssertion :: "KnowledgeAssertion \<Rightarrow> json" where
  "dump_KnowledgeAssertion a =
     JObj ([(''assertion'', JStr (ka_assertion a)), (''value'', JBool (ka_value a))]
           @ unless_none ''description'' JStr (ka_description a))"

definition dump_QuantifiedVariable :: "QuantifiedVariable \<Rightarrow> json" where
  "dump_QuantifiedVariable q = JObj [(''name'', JStr (qv_name q)), (''sort'', JStr (qv_sort q))]"

definition dump_RuleImplication :: "RuleImplication \<Rightarrow> json" where
  "dump_RuleImplication i =
     JObj [(''antecedent'', JStr (ri_antecedent i)), (''consequent'', JStr (ri_consequent i))]"

definition dump_RuleDefinition :: "RuleDefinition \<Rightarrow> json" where
  "dump_RuleDefinition r =
     JObj (unless_none ''name'' JStr (rd_name r)
           @ unless_none ''forall'' (\<lambda>qs. JList (map dump_QuantifiedVariable qs)) (rd_forall r)
           @ unless_none ''implies'' dump_RuleImplication (rd_implies r)
           @ unless_none ''constraint'' JStr (rd_constraint r)
           @ unless_none ''description'' JStr (rd_description r))"

definition dump_VerificationImplication :: "VerificationImplication \<Rightarrow> json" where
  "dump_VerificationImplication i =
     JObj [(''antecedent'', JStr (vi_antecedent i)), (''consequent'', JStr (vi_consequent i))]"

definition dump_VerificationDefinition :: "VerificationDefinition \<Rightarrow> json" where
  "dump_VerificationDefinition v =
     JObj (unless_none ''name'' JStr (ver_name v)
           @ unless_none ''constraint'' JStr (ver_constraint v)
           @ unless_none ''exists'' (\<lambda>qs. JList (map dump_QuantifiedVariable qs)) (ver_exists v)
           @ unless_none ''forall'' (\<lambda>qs. JList (map dump_QuantifiedVariable qs)) (ver_forall v)
           @ unless_none ''implies'' dump_VerificationImplication (ver_implies v)
           @ unless_none ''description'' JStr (ver_description v))"

definition dump_ObjectiveDefinition :: "ObjectiveDefinition \<Rightarrow> json" where
  "dump_ObjectiveDefinition ob =
     JObj [(''type'', JStr (od_type ob)), (''expression'', JStr (od_expression ob))]"

definition dump_OptimizationConfig :: "OptimizationConfig \<Rightarrow> json" where
  "dump_OptimizationConfig c =
     JObj ([(''variables'', JList (map dump_VariableDefinition (oc_variables c))),
            (''constraints'', str_list (oc_constraints c)),
            (''objectives'', JList (map dump_ObjectiveDefinition (oc_objectives c)))]
           @ unless_none ''description'' JStr (oc_description c))"

definition dump_members :: "string list + (string \<times> string) list \<Rightarrow> json" where
  "dump_members m =
     (case m of Inl xs \<Rightarrow> str_list xs | Inr kvs \<Rightarrow> JObj (map (\<lambda>(k, v). (k, JStr v)) kvs))"

definition dump_ConstantDefinition :: "ConstantDefinition \<Rightarrow> json" where
  "dump_ConstantDefinition c =
     JObj ([(''sort'', JStr (cd_sort c)), (''members'', dump_members (cd_members c))]
           @ unless_none ''description'' JStr (cd_description c))"

text \<open>
  The loop over \<open>self.knowledge_base\<close>: an entry that is a model is dumped, a bare string is
  appended as it is.
\<close>

definition knowledge_entry :: "KnowledgeEntry \<Rightarrow> json" where
  "knowledge_entry entry =
     (case entry of Inr a \<Rightarrow> dump_KnowledgeAssertion a | Inl s \<Rightarrow> JStr s)"

definition to_dsl_dict :: "StructuredProgram \<Rightarrow> json" where
  "to_dsl_dict self =
     (let sorts_data = map dump_SortDefinition (sp_sorts self);
          functions_data = map dump_FunctionDefinition (sp_functions self);
          variables_data = map dump_VariableDefinition (sp_variables self);
          knowledge_entries = map knowledge_entry (sp_knowledge_base self);
          rules_data = map dump_RuleDefinition (sp_rules self);
          verifications_data = map dump_VerificationDefinition (sp_verifications self);
          actions = (if sp_actions self \<noteq> [] then sp_actions self else [''verify_conditions''])
      in JObj ([(''sorts'', JList sorts_data),
                (''functions'', JList functions_data),
                (''constants'',
                   JObj (map (\<lambda>(name, constant). (name, dump_ConstantDefinition constant))
                          (sp_constants self))),
                (''variables'', JList variables_data),
                (''knowledge_base'', JList knowledge_entries),
                (''rules'', JList rules_data),
                (''verifications'', JList verifications_data),
                (''actions'', str_list actions)]
               @ (case sp_optimization self of
                    Some c \<Rightarrow> [(''optimization'', dump_OptimizationConfig c)]
                  | None \<Rightarrow> [])))"

section \<open>The program generator\<close>

definition STRUCTURED_SYSTEM_PROMPT :: string where
  "STRUCTURED_SYSTEM_PROMPT =
     ''You are an assistant that produces Z3 DSL programs. '' @
     ''Always respond with JSON that matches the provided schema.''"

record GenerationResult =
  json_program :: "json option"
  raw_response :: string
  success :: bool
  error :: "string option"

text \<open>A chat message is the dict \<open>{"role": ..., "content": ...}\<close>.\<close>

type_synonym message = "(string \<times> string) list"

text \<open>
  A raised exception: its class, as far as the \<open>except\<close> clauses of the module tell
  classes apart, and what \<open>str(exc)\<close> gives. \<open>BaseException\<close> stands for whatever is
  raised that is no \<open>Exception\<close> (KeyboardInterrupt, SystemExit), \<open>Exception\<close> for an
  \<open>Exception\<close> of a class not listed.
\<close>

datatype exception_class =
    BaseException
  | Exception
  | TypeError
  | ValueError
  | RecursionError
  | JSONDecodeError

datatype exn = Raised exception_class string

fun class_of :: "exn \<Rightarrow> exception_class" where
  "class_of (Raised c msg) = c"

fun str_of :: "exn \<Rightarrow> string" where
  "str_of (Raised c msg) = msg"

text \<open>What \<open>except Exception\<close> and \<open>except json.JSONDecodeError\<close> catch.\<close>

definition is_Exception :: "exn \<Rightarrow> bool" where
  "is_Exception exc = (class_of exc \<noteq> BaseException)"

definition is_JSONDecodeError :: "exn \<Rightarrow> bool" where
  "is_JSONDecodeError exc = (class_of exc = JSONDecodeError)"

text \<open>
  The LLM client is a collaborator. \<open>responses_parse\<close> is \<open>llm_client.responses.parse\<close>,
  absent when the client has no such attribute; called with model, input, temperature and
  max\_output\_tokens it raises or returns a response whose \<open>output_parsed\<close> is a
  StructuredProgram or \<open>None\<close>. \<open>chat_completions_create\<close> stands for
  \<open>llm_client.chat.completions.create(...)\<close> followed by
  \<open>.choices[0].message.content\<close>: it raises or gives the content of the assistant's
  message, which is a string or \<open>None\<close>. The temperature is a float, kept abstract as
  \<open>'t\<close>.
\<close>

record 't llm_client =
  responses_parse :: "(string \<Rightarrow> message list \<Rightarrow> 't \<Rightarrow> int \<Rightarrow> exn + StructuredProgram option) option"
  chat_completions_create :: "string \<Rightarrow> message list \<Rightarrow> int \<Rightarrow> exn + string option"

record 't Z3ProgramGenerator =
  llm_client :: "'t llm_client"
  model :: string

text \<open>
  What the module imports from elsewhere: \<open>build_prompt\<close> of \<open>prompt_template\<close>,
  \<open>json.loads\<close>, which returns the parsed value or raises (JSONDecodeError on text that
  is not JSON, ValueError or RecursionError on some text that is), and pydantic's
  \<open>model_dump_json(indent=2, exclude_none=True)\<close>.
\<close>

record externals =
  build_prompt :: "string \<Rightarrow> string"
  json_loads :: "string \<Rightarrow> exn + json"
  model_dump_json :: "StructuredProgram \<Rightarrow> string"

text \<open>Every request made to the client is recorded, in order, with the arguments it got.\<close>

datatype 't request =
    Responses_parse string "message list" 't int
  | Chat_create string "message list" int

fun messages_of :: "'t request \<Rightarrow> message list" where
  "messages_of (Responses_parse m msgs t n) = msgs"
| "messages_of (Chat_create m msgs n) = msgs"

definition initial_messages :: "string \<Rightarrow> message list" where
  "initial_messages prompt =
     [[(''role'', ''system''), (''content'', STRUCTURED_SYSTEM_PROMPT)],
      [(''role'', ''user''), (''content'', prompt)]]"

definition feedback_messages :: "string \<Rightarrow> string \<Rightarrow> string \<Rightarrow> message list" where
  "feedback_messages prompt previous_response feedback_message =
     [[(''role'', ''system''), (''content'', STRUCTURED_SYSTEM_PROMPT)],
      [(''role'', ''user''), (''content'', prompt)],
      [(''role'', ''assistant''), (''content'', previous_response)],
      [(''role'', ''user''), (''content'', feedback_message)]]"

text \<open>
  \<open>_call_structured_api\<close>: nothing when the client has no \<open>responses.parse\<close>, when the
  call raises an \<open>Exception\<close> (caught and logged) or when the response has no parsed
  output. What the call raises that is no \<open>Exception\<close> is not caught.
\<close>

definition call_structured_api ::
  "externals \<Rightarrow> 't Z3ProgramGenerator \<Rightarrow> message list \<Rightarrow> 't \<Rightarrow> int
     \<Rightarrow> (exn + (json \<times> string) option) \<times> 't request list" where
  "call_structured_api x self messages temperature max_tokens =
     (case responses_parse (llm_client self) of
        None \<Rightarrow> (Inr None, [])
      | Some parse_fn \<Rightarrow>
          (case parse_fn (model self) messages temperature max_tokens of
             Inl exc \<Rightarrow>
               (if is_Exception exc then Inr None else Inl exc,
                [Responses_parse (model self) messages temperature max_tokens])
           | Inr None \<Rightarrow> (Inr None, [Responses_parse (model self) messages temperature max_tokens])
           | Inr (Some parsed_program) \<Rightarrow>
               (Inr (Some (to_dsl_dict parsed_program, model_dump_json x parsed_program)),
                [Responses_parse (model self) messages temperature max_tokens])))"

definition call_chat_completion ::
  "'t Z3ProgramGenerator \<Rightarrow> message list \<Rightarrow> int \<Rightarrow> (exn + string option) \<times> 't request list" where
  "call_chat_completion self messages max_tokens =
     (chat_completions_create (llm_client self) (model self) messages max_tokens,
      [Chat_create (model self) messages max_tokens])"

subsection \<open>\_extract\_json\<close>

text \<open>
  \<open>\s\<close> of a str pattern is Unicode whitespace; these are its code points below 256.
\<close>

definition is_space :: "char \<Rightarrow> bool" where
  "is_space c =
     ((of_char c :: nat) \<in> {9, 10, 11, 12, 13, 28, 29, 30, 31, 32, 133, 160})"

definition ticks :: string where
  "ticks = [CHR 0x60, CHR 0x60, CHR 0x60]"

definition fence :: string where
  "fence = ticks @ ''json''"

text \<open>
  The lazy \<open>[\s\S]*?\}\<close> followed by \<open>\s*```\<close>, on the text after the opening brace:
  the shortest stretch that ends in a closing brace after which only whitespace stands
  before three backquotes.
\<close>

fun shortest_close :: "string \<Rightarrow> string option" where
  "shortest_close [] = None"
| "shortest_close (c # cs) =
     (if c = CHR ''}'' \<and> prefix ticks (dropWhile is_space cs) then Some [c]
      else map_option ((#) c) (shortest_close cs))"

text \<open>The fenced pattern tried at the very start of a text; the result is group 1.\<close>

definition fenced_at :: "string \<Rightarrow> string option" where
  "fenced_at t =
     (if prefix fence t then
        (case dropWhile is_space (drop (length fence) t) of
           [] \<Rightarrow> None
         | c # cs \<Rightarrow> (if c = CHR ''{'' then map_option ((#) c) (shortest_close cs) else None))
      else None)"

text \<open>\<open>re.search\<close> tries the start positions from left to right.\<close>

fun fenced_search :: "string \<Rightarrow> string option" where
  "fenced_search [] = fenced_at []"
| "fenced_search (c # cs) =
     (case fenced_at (c # cs) of Some g \<Rightarrow> Some g | None \<Rightarrow> fenced_search cs)"

text \<open>The greedy \<open>[\s\S]*\}\<close>: everything up to the last closing brace.\<close>

definition upto_last_close :: "string \<Rightarrow> string option" where
  "upto_last_close cs =
     (if CHR ''}'' \<in> set cs then Some (rev (dropWhile (\<lambda>c. c \<noteq> CHR ''}'') (rev cs))) else None)"

fun brace_search :: "string \<Rightarrow> string option" where
  "brace_search [] = None"
| "brace_search (c # cs) =
     (if c = CHR ''{'' then
        (case upto_last_close cs of Some b \<Rightarrow> Some (c # b) | None \<Rightarrow> brace_search cs)
      else brace_search cs)"

text \<open>
  \<open>json.loads\<close> inside \<open>try ... except json.JSONDecodeError\<close>: the parsed value,
  \<open>None\<close> when the text is not JSON, and any other exception passed on.
\<close>

definition loads_or_none :: "externals \<Rightarrow> string \<Rightarrow> exn + json option" where
  "loads_or_none x s =
     (case json_loads x s of
        Inr j \<Rightarrow> Inr (Some j)
      | Inl exc \<Rightarrow> (if is_JSONDecodeError exc then Inr None else Inl exc))"

definition extract_json :: "externals \<Rightarrow> string \<Rightarrow> exn + json option" where
  "extract_json x markdown_content =
     (case fenced_search markdown_content of
        Some json_str \<Rightarrow> loads_or_none x json_str
      | None \<Rightarrow>
          (case brace_search markdown_content of
             Some s \<Rightarrow> loads_or_none x s
           | None \<Rightarrow> Inr None))"

text \<open>
  On \<open>None\<close> instead of a text, \<open>re.search\<close> raises this TypeError before anything
  else happens in \<open>_extract_json\<close>.
\<close>

definition search_type_error :: exn where
  "search_type_error = Raised TypeError ''expected string or bytes-like object''"

subsection \<open>generate and generate\_with\_feedback\<close>

definition is_truthy :: "json option \<Rightarrow> bool" where
  "is_truthy r = (case r of None \<Rightarrow> False | Some j \<Rightarrow> truthy j)"

text \<open>
  Only the chat-completion call stands inside \<open>try ... except Exception\<close>;
  \<open>_call_structured_api\<close> and \<open>_extract_json\<close> are called outside it, so what they
  raise reaches the caller.
\<close>

definition generate ::
  "externals \<Rightarrow> 't Z3ProgramGenerator \<Rightarrow> string \<Rightarrow> 't \<Rightarrow> int
     \<Rightarrow> (exn + GenerationResult) \<times> 't request list" where
  "generate x self question temperature max_tokens =
     (let prompt = build_prompt x question;
          messages = initial_messages prompt
      in case call_structured_api x self messages temperature max_tokens of
           (Inl exc, sent) \<Rightarrow> (Inl exc, sent)
         | (Inr (Some (program, raw)), sent) \<Rightarrow>
             (Inr \<lparr>json_program = Some program, raw_response = raw,
                   success = True, error = None\<rparr>, sent)
         | (Inr None, sent) \<Rightarrow>
             (case call_chat_completion self messages max_tokens of
                (Inl exc, sent') \<Rightarrow>
                  (if is_Exception exc then
                     Inr \<lparr>json_program = None, raw_response = [],
                          success = False, error = Some (str_of exc)\<rparr>
                   else Inl exc, sent @ sent')
              | (Inr None, sent') \<Rightarrow> (Inl search_type_error, sent @ sent')
              | (Inr (Some raw), sent') \<Rightarrow>
                  (case extract_json x raw of
                     Inl exc \<Rightarrow> (Inl exc, sent @ sent')
                   | Inr extracted \<Rightarrow>
                       (if is_truthy extracted then
                          (Inr \<lparr>json_program = extracted, raw_response = raw,
                                success = True, error = None\<rparr>, sent @ sent')
                        else
                          (Inr \<lparr>json_program = None, raw_response = raw, success = False,
                                error = Some ''Failed to extract valid JSON from response''\<rparr>,
                           sent @ sent')))))"

definition feedback_text :: "string \<Rightarrow> string" where
  "feedback_text error_trace =
     ''There was an error processing your response:'' @ [CHR 0x0A] @ error_trace @ [CHR 0x0A] @
     ''Please fix the JSON accordingly.''"

definition generate_with_feedback ::
  "externals \<Rightarrow> 't Z3ProgramGenerator \<Rightarrow> string \<Rightarrow> string \<Rightarrow> string \<Rightarrow> 't \<Rightarrow> int
     \<Rightarrow> (exn + GenerationResult) \<times> 't request list" where
  "generate_with_feedback x self question error_trace previous_response temperature max_tokens =
     (let prompt = build_prompt x question;
          feedback_message = feedback_text error_trace;
          messages = feedback_messages prompt previous_response feedback_message
      in case call_structured_api x self messages temperature max_tokens of
           (Inl exc, sent) \<Rightarrow> (Inl exc, sent)
         | (Inr (Some (program, raw)), sent) \<Rightarrow>
             (Inr \<lparr>json_program = Some program, raw_response = raw,
                   success = True, error = None\<rparr>, sent)
         | (Inr None, sent) \<Rightarrow>
             (case call_chat_completion self messages max_tokens of
                (Inl exc, sent') \<Rightarrow>
                  (if is_Exception exc then
                     Inr \<lparr>json_program = None, raw_response = [],
                          success = False, error = Some (str_of exc)\<rparr>
                   else Inl exc, sent @ sent')
              | (Inr None, sent') \<Rightarrow> (Inl search_type_error, sent @ sent')
              | (Inr (Some raw), sent') \<Rightarrow>
                  (case extract_json x raw of
                     Inl exc \<Rightarrow> (Inl exc, sent @ sent')
                   | Inr extracted \<Rightarrow>
                       (if is_truthy extracted then
                          (Inr \<lparr>json_program = extracted, raw_response = raw,
                                success = True, error = None\<rparr>, sent @ sent')
                        else
                          (Inr \<lparr>json_program = None, raw_response = raw, success = False,
                                error = Some ''Failed to extract valid JSON from feedback response''\<rparr>,
                           sent @ sent')))))"

text \<open>
  The structured path yields nothing: the client has no \<open>responses.parse\<close>, the call
  raises an \<open>Exception\<close>, or the response has no parsed output. Only then is the
  chat-completion call made.
\<close>

definition no_structured_output :: "'t Z3ProgramGenerator \<Rightarrow> message list \<Rightarrow> 't \<Rightarrow> int \<Rightarrow> bool" where
  "no_structured_output self messages temperature max_tokens =
     (case responses_parse (llm_client self) of
        None \<Rightarrow> True
      | Some parse_fn \<Rightarrow>
          (case parse_fn (model self) messages temperature max_tokens of
             Inl exc \<Rightarrow> is_Exception exc
           | Inr None \<Rightarrow> True
           | Inr (Some parsed_program) \<Rightarrow> False))"

section \<open>Reading a returned dict\<close>

text \<open>\<open>d.get(k)\<close> on a value: the entry under a key of a dict, nothing otherwise.\<close>

fun entry :: "string \<Rightarrow> json \<Rightarrow> json option" where
  "entry k (JObj kvs) = map_of kvs k"
| "entry k _ = None"

section \<open>Sample inputs\<close>

text \<open>The program that the empty document validates to.\<close>

definition empty_program :: StructuredProgram where
  "empty_program =
     \<lparr>sp_sorts = [], sp_functions = [], sp_constants = [], sp_variables = [],
      sp_knowledge_base = [], sp_rules = [], sp_verifications = [],
      sp_optimization = None, sp_actions = []\<rparr>"

text \<open>Collaborators for concrete runs of the generator.\<close>

definition sample_externals :: externals where
  "sample_externals =
     \<lparr>build_prompt = (\<lambda>q. ''Question: '' @ q),
      json_loads = (\<lambda>s. if s = ''{\"a\": 1}'' then Inr (JObj [(''a'', JInt 1)])
                         else Inl (Raised JSONDecodeError ''Expecting value'')),
      model_dump_json = (\<lambda>p. ''{}'')\<rparr>"

definition raising_generator :: "rat Z3ProgramGenerator" where
  "raising_generator =
     \<lparr>llm_client = \<lparr>responses_parse = None,
                     chat_completions_create = (\<lambda>m msgs n. Inl (Raised Exception ''timeout''))\<rparr>,
      model = ''gpt-4o''\<rparr>"



definition structured_generator :: "rat Z3ProgramGenerator" where
  "structured_generator =
     \<lparr>llm_client = \<lparr>responses_parse = Some (\<lambda>m msgs t n. Inr (Some empty_program)),
                     chat_completions_create = (\<lambda>m msgs n. Inl (Raised Exception ''unused''))\<rparr>,
      model = ''gpt-4o''\<rparr>"



definition sample_knowledge :: StructuredProgram where
  "sample_knowledge =
     empty_program\<lparr>sp_knowledge_base :=
       [Inl ''x = 4'',
        Inr \<lparr>ka_assertion = ''x = 5'', ka_value = False, ka_description = None\<rparr>]\<rparr>"






section \<open>Keys outside the schema\<close>

text \<open>
  Where a document has a key that no class declares. \<open>stray declared j\<close>: the dict \<open>j\<close>,
  standing where a model with these fields is expected, has a key that is not one of them.
  The other predicates follow the schema down: into the value under a field, into the
  elements of a list, into the values of a mapping. The names of the constant groups and
  the keys of a \<open>members\<close> mapping are data of the document, not keys of the schema.
\<close>

definition stray :: "string list \<Rightarrow> json \<Rightarrow> bool" where
  "stray declared j = (case j of JObj kvs \<Rightarrow> (\<exists>k \<in> set (map fst kvs). k \<notin> set declared) | _ \<Rightarrow> False)"

definition at_key :: "string \<Rightarrow> (json \<Rightarrow> bool) \<Rightarrow> json \<Rightarrow> bool" where
  "at_key k P j =
     (case j of JObj kvs \<Rightarrow> (case map_of kvs k of Some v \<Rightarrow> P v | None \<Rightarrow> False) | _ \<Rightarrow> False)"

definition in_list :: "(json \<Rightarrow> bool) \<Rightarrow> json \<Rightarrow> bool" where
  "in_list P j = (case j of JList xs \<Rightarrow> (\<exists>x \<in> set xs. P x) | _ \<Rightarrow> False)"

definition in_dict :: "(json \<Rightarrow> bool) \<Rightarrow> json \<Rightarrow> bool" where
  "in_dict P j = (case j of JObj kvs \<Rightarrow> (\<exists>v \<in> set (map snd kvs). P v) | _ \<Rightarrow> False)"

definition unknown_key_SortDefinition :: "json \<Rightarrow> bool" where
  "unknown_key_SortDefinition = stray SortDefinition_fields"

definition unknown_key_FunctionDefinition :: "json \<Rightarrow> bool" where
  "unknown_key_FunctionDefinition = stray FunctionDefinition_fields"

definition unknown_key_VariableDefinition :: "json \<Rightarrow> bool" where
  "unknown_key_VariableDefinition = stray VariableDefinition_fields"

definition unknown_key_KnowledgeAssertion :: "json \<Rightarrow> bool" where
  "unknown_key_KnowledgeAssertion = stray KnowledgeAssertion_fields"

definition unknown_key_QuantifiedVariable :: "json \<Rightarrow> bool" where
  "unknown_key_QuantifiedVariable = stray QuantifiedVariable_fields"

definition unknown_key_RuleImplication :: "json \<Rightarrow> bool" where
  "unknown_key_RuleImplication = stray RuleImplication_fields"

definition unknown_key_RuleDefinition :: "json \<Rightarrow> bool" where
  "unknown_key_RuleDefinition j =
     (stray RuleDefinition_fields j
      \<or> at_key ''forall'' (in_list unknown_key_QuantifiedVariable) j
      \<or> at_key ''implies'' unknown_key_RuleImplication j)"

definition unknown_key_VerificationImplication :: "json \<Rightarrow> bool" where
  "unknown_key_VerificationImplication = stray VerificationImplication_fields"

definition unknown_key_VerificationDefinition :: "json \<Rightarrow> bool" where
  "unknown_key_VerificationDefinition j =
     (stray VerificationDefinition_fields j
      \<or> at_key ''exists'' (in_list unknown_key_QuantifiedVariable) j
      \<or> at_key ''forall'' (in_list unknown_key_QuantifiedVariable) j
      \<or> at_key ''implies'' unknown_key_VerificationImplication j)"

definition unknown_key_ObjectiveDefinition :: "json \<Rightarrow> bool" where
  "unknown_key_ObjectiveDefinition = stray ObjectiveDefinition_fields"

definition unknown_key_OptimizationConfig :: "json \<Rightarrow> bool" where
  "unknown_key_OptimizationConfig j =
     (stray OptimizationConfig_fields j
      \<or> at_key ''variables'' (in_list unknown_key_VariableDefinition) j
      \<or> at_key ''objectives'' (in_list unknown_key_ObjectiveDefinition) j)"

definition unknown_key_ConstantDefinition :: "json \<Rightarrow> bool" where
  "unknown_key_ConstantDefinition = stray ConstantDefinition_fields"

definition unknown_key :: "json \<Rightarrow> bool" where
  "unknown_key j =
     (stray StructuredProgram_fields j
      \<or> at_key ''sorts'' (in_list unknown_key_SortDefinition) j
      \<or> at_key ''functions'' (in_list unknown_key_FunctionDefinition) j
      \<or> at_key ''constants'' (in_dict unknown_key_ConstantDefinition) j
      \<or> at_key ''variables'' (in_list unknown_key_VariableDefinition) j
      \<or> at_key ''knowledge_base'' (in_list unknown_key_KnowledgeAssertion) j
      \<or> at_key ''rules'' (in_list unknown_key_RuleDefinition) j
      \<or> at_key ''verifications'' (in_list unknown_key_VerificationDefinition) j
      \<or> at_key ''optimization'' unknown_key_OptimizationConfig j)"

text \<open>A failed validation reports an error of the given type somewhere.\<close>

definition reports :: "error_type \<Rightarrow> 'a validated \<Rightarrow> bool" where
  "reports t r = (case r of Inl e \<Rightarrow> t \<in> set (map snd e) | Inr v \<Rightarrow> False)"

text \<open>A document with a key \<open>colour\<close> on a quantified variable of its only rule.\<close>

definition coloured_doc :: json where
  "coloured_doc =
     JObj [(''rules'',
        JList [JObj [(''forall'',
           JList [JObj [(''name'', JStr ''x''), (''sort'', JStr ''A''),
                        (''colour'', JStr ''red'')]]),
                     (''constraint'', JStr ''x = x'')]])]"

section \<open>Fenced blocks\<close>





section \<open>to\_dsl\_dict on a store\<close>

text \<open>
  To see what \<open>to_dsl_dict\<close> shares with its program, the mutable objects are put in a
  store: a list, a dict and a model instance each live at an address, and a value is
  \<open>None\<close>, a boolean, a string or a reference to an object. Creating an object extends
  the store; \<open>append\<close> and item assignment replace the object at an address.
\<close>

type_synonym addr = nat

datatype val = VNone | VBool bool | VStr string | VRef addr

datatype obj =
    OList "val list"
  | ODict "(string \<times> val) list"
  | OModel "(string \<times> val) list"

type_synonym store = "obj list"

definition deref :: "store \<Rightarrow> val \<Rightarrow> obj option" where
  "deref h v = (case v of VRef a \<Rightarrow> (if a < length h then Some (h ! a) else None) | _ \<Rightarrow> None)"

definition alloc :: "obj \<Rightarrow> store \<Rightarrow> (val \<times> store) option" where
  "alloc ob h = Some (VRef (length h), h @ [ob])"

definition and_then ::
  "(store \<Rightarrow> ('a \<times> store) option) \<Rightarrow> ('a \<Rightarrow> store \<Rightarrow> ('b \<times> store) option)
     \<Rightarrow> store \<Rightarrow> ('b \<times> store) option" where
  "and_then m f h = (case m h of None \<Rightarrow> None | Some (r, h') \<Rightarrow> f r h')"

text \<open>
  The declared type of a field, as far as dumping needs it. A union is dispatched on the
  kind of the value at hand.
\<close>

datatype schema =
    TStr
  | TBool
  | TOptional schema
  | TList schema
  | TDict schema
  | TModel "(string \<times> schema) list"
  | TUnion schema schema

fun kind_matches :: "schema \<Rightarrow> store \<Rightarrow> val \<Rightarrow> bool" where
  "kind_matches TStr h v = (case v of VStr s \<Rightarrow> True | _ \<Rightarrow> False)"
| "kind_matches TBool h v = (case v of VBool b \<Rightarrow> True | _ \<Rightarrow> False)"
| "kind_matches (TOptional s) h v = (v = VNone \<or> kind_matches s h v)"
| "kind_matches (TList s) h v = (case deref h v of Some (OList xs) \<Rightarrow> True | _ \<Rightarrow> False)"
| "kind_matches (TDict s) h v = (case deref h v of Some (ODict kvs) \<Rightarrow> True | _ \<Rightarrow> False)"
| "kind_matches (TModel fs) h v = (case deref h v of Some (OModel attrs) \<Rightarrow> True | _ \<Rightarrow> False)"
| "kind_matches (TUnion a b) h v = (kind_matches a h v \<or> kind_matches b h v)"

text \<open>
  \<open>model_dump(mode="python", exclude_none=True)\<close> on the store: a string or boolean is
  returned as it is, a list or dict is dumped element by element into a new list or dict,
  and a model instance becomes a new dict of its declared fields without those whose dump
  is \<open>None\<close>. Nothing that exists is written to.
\<close>

function (sequential) dump :: "schema \<Rightarrow> val \<Rightarrow> store \<Rightarrow> (val \<times> store) option"
  and dump_items :: "schema \<Rightarrow> val list \<Rightarrow> store \<Rightarrow> (val list \<times> store) option"
  and dump_values :: "schema \<Rightarrow> (string \<times> val) list \<Rightarrow> store \<Rightarrow> ((string \<times> val) list \<times> store) option"
  and dump_fields ::
    "(string \<times> schema) list \<Rightarrow> (string \<times> val) list \<Rightarrow> store \<Rightarrow> ((string \<times> val) list \<times> store) option"
  where
  "dump TStr v h = (case v of VStr s \<Rightarrow> Some (v, h) | _ \<Rightarrow> None)"
| "dump TBool v h = (case v of VBool b \<Rightarrow> Some (v, h) | _ \<Rightarrow> None)"
| "dump (TOptional s) v h = (if v = VNone then Some (VNone, h) else dump s v h)"
| "dump (TList s) v h =
     (case deref h v of
        Some (OList xs) \<Rightarrow>
          (case dump_items s xs h of
             Some (ys, h') \<Rightarrow> alloc (OList ys) h'
           | None \<Rightarrow> None)
      | _ \<Rightarrow> None)"
| "dump (TDict s) v h =
     (case deref h v of
        Some (ODict kvs) \<Rightarrow>
          (case dump_values s kvs h of
             Some (es, h') \<Rightarrow> alloc (ODict es) h'
           | None \<Rightarrow> None)
      | _ \<Rightarrow> None)"
| "dump (TModel fs) v h =
     (case deref h v of
        Some (OModel attrs) \<Rightarrow>
          (case dump_fields fs attrs h of
             Some (es, h') \<Rightarrow> alloc (ODict es) h'
           | None \<Rightarrow> None)
      | _ \<Rightarrow> None)"
| "dump (TUnion a b) v h = (if kind_matches a h v then dump a v h else dump b v h)"
| "dump_items s [] h = Some ([], h)"
| "dump_items s (x # xs) h =
     (case dump s x h of
        Some (y, h') \<Rightarrow>
          (case dump_items s xs h' of
             Some (ys, h'') \<Rightarrow> Some (y # ys, h'')
           | None \<Rightarrow> None)
      | None \<Rightarrow> None)"
| "dump_values s [] h = Some ([], h)"
| "dump_values s ((k, x) # kvs) h =
     (case dump s x h of
        Some (y, h') \<Rightarrow>
          (case dump_values s kvs h' of
             Some (es, h'') \<Rightarrow> Some ((k, y) # es, h'')
           | None \<Rightarrow> None)
      | None \<Rightarrow> None)"
| "dump_fields [] attrs h = Some ([], h)"
| "dump_fields ((k, s) # fs) attrs h =
     (case map_of attrs k of
        Some x \<Rightarrow>
          (case dump s x h of
             Some (y, h') \<Rightarrow>
               (case dump_fields fs attrs h' of
                  Some (es, h'') \<Rightarrow> Some ((if y = VNone then es else (k, y) # es), h'')
                | None \<Rightarrow> None)
           | None \<Rightarrow> None)
      | None \<Rightarrow> None)"
  by pat_completeness auto
termination
  by (relation "inv_image (less_than <*lex*> less_than)
        (\<lambda>x. case x of
           Inl (Inl (s, v, h)) \<Rightarrow> (size s, 0)
         | Inl (Inr (s, xs, h)) \<Rightarrow> (size s, Suc (length xs))
         | Inr (Inl (s, kvs, h)) \<Rightarrow> (size s, Suc (length kvs))
         | Inr (Inr (fs, attrs, h)) \<Rightarrow> (size_list (size_prod (\<lambda>k. 0) size) fs, 0))")
     auto
subsection \<open>The declared fields of the classes, with their types\<close>

definition SortDefinition_schema :: schema where
  "SortDefinition_schema =
     TModel [(''name'', TStr), (''type'', TStr), (''values'', TOptional (TList TStr)),
             (''description'', TOptional TStr)]"

definition FunctionDefinition_schema :: schema where
  "FunctionDefinition_schema =
     TModel [(''name'', TStr), (''domain'', TList TStr), (''range'', TStr),
             (''description'', TOptional TStr)]"

definition VariableDefinition_schema :: schema where
  "VariableDefinition_schema =
     TModel [(''name'', TStr), (''sort'', TStr), (''description'', TOptional TStr)]"

definition KnowledgeAssertion_schema :: schema where
  "KnowledgeAssertion_schema =
     TModel [(''assertion'', TStr), (''value'', TBool), (''description'', TOptional TStr)]"

definition QuantifiedVariable_schema :: schema where
  "QuantifiedVariable_schema = TModel [(''name'', TStr), (''sort'', TStr)]"

definition RuleImplication_schema :: schema where
  "RuleImplication_schema = TModel [(''antecedent'', TStr), (''consequent'', TStr)]"

definition RuleDefinition_schema :: schema where
  "RuleDefinition_schema =
     TModel [(''name'', TOptional TStr),
             (''forall'', TOptional (TList QuantifiedVariable_schema)),
             (''implies'', TOptional RuleImplication_schema),
             (''constraint'', TOptional TStr),
             (''description'', TOptional TStr)]"

definition VerificationImplication_schema :: schema where
  "VerificationImplication_schema = TModel [(''antecedent'', TStr), (''consequent'', TStr)]"

definition VerificationDefinition_schema :: schema where
  "VerificationDefinition_schema =
     TModel [(''name'', TOptional TStr),
             (''constraint'', TOptional TStr),
             (''exists'', TOptional (TList QuantifiedVariable_schema)),
             (''forall'', TOptional (TList QuantifiedVariable_schema)),
             (''implies'', TOptional VerificationImplication_schema),
             (''description'', TOptional TStr)]"

definition ObjectiveDefinition_schema :: schema where
  "ObjectiveDefinition_schema = TModel [(''type'', TStr), (''expression'', TStr)]"

definition OptimizationConfig_schema :: schema where
  "OptimizationConfig_schema =
     TModel [(''variables'', TList VariableDefinition_schema),
             (''constraints'', TList TStr),
             (''objectives'', TList ObjectiveDefinition_schema),
             (''description'', TOptional TStr)]"

definition ConstantDefinition_schema :: schema where
  "ConstantDefinition_schema =
     TModel [(''sort'', TStr),
             (''members'', TUnion (TList TStr) (TDict TStr)),
             (''description'', TOptional TStr)]"

definition StructuredProgram_schema :: schema where
  "StructuredProgram_schema =
     TModel [(''sorts'', TList SortDefinition_schema),
             (''functions'', TList FunctionDefinition_schema),
             (''constants'', TDict ConstantDefinition_schema),
             (''variables'', TList VariableDefinition_schema),
             (''knowledge_base'', TList (TUnion TStr KnowledgeAssertion_schema)),
             (''rules'', TList RuleDefinition_schema),
             (''verifications'', TList VerificationDefinition_schema),
             (''optimization'', TOptional OptimizationConfig_schema),
             (''actions'', TList TStr)]"

subsection \<open>The method, statement by statement\<close>

text \<open>\<open>self.k\<close>, the elements of a list, the items of a dict.\<close>

definition attribute :: "string \<Rightarrow> val \<Rightarrow> store \<Rightarrow> (val \<times> store) option" where
  "attribute k v h =
     (case deref h v of
        Some (OModel attrs) \<Rightarrow> (case map_of attrs k of Some w \<Rightarrow> Some (w, h) | None \<Rightarrow> None)
      | _ \<Rightarrow> None)"

definition elements :: "val \<Rightarrow> store \<Rightarrow> (val list \<times> store) option" where
  "elements v h = (case deref h v of Some (OList xs) \<Rightarrow> Some (xs, h) | _ \<Rightarrow> None)"

definition dict_items :: "val \<Rightarrow> store \<Rightarrow> ((string \<times> val) list \<times> store) option" where
  "dict_items v h = (case deref h v of Some (ODict kvs) \<Rightarrow> Some (kvs, h) | _ \<Rightarrow> None)"

text \<open>\<open>l.append(v)\<close> and \<open>d[k] = v\<close> write to the object that \<open>l\<close> or \<open>d\<close> refers to.\<close>

definition append :: "val \<Rightarrow> val \<Rightarrow> store \<Rightarrow> (unit \<times> store) option" where
  "append l v h =
     (case l of
        VRef a \<Rightarrow>
          (case deref h l of
             Some (OList xs) \<Rightarrow> Some ((), h[a := OList (xs @ [v])])
           | _ \<Rightarrow> None)
      | _ \<Rightarrow> None)"

fun assign :: "string \<Rightarrow> val \<Rightarrow> (string \<times> val) list \<Rightarrow> (string \<times> val) list" where
  "assign k v [] = [(k, v)]"
| "assign k v ((k', w) # kvs) = (if k' = k then (k, v) # kvs else (k', w) # assign k v kvs)"

definition set_item :: "val \<Rightarrow> string \<Rightarrow> val \<Rightarrow> store \<Rightarrow> (unit \<times> store) option" where
  "set_item d k v h =
     (case d of
        VRef a \<Rightarrow>
          (case deref h d of
             Some (ODict kvs) \<Rightarrow> Some ((), h[a := ODict (assign k v kvs)])
           | _ \<Rightarrow> None)
      | _ \<Rightarrow> None)"

text \<open>\<open>[dump_model(x) for x in v]\<close>.\<close>

definition dump_each :: "schema \<Rightarrow> val \<Rightarrow> store \<Rightarrow> (val \<times> store) option" where
  "dump_each s v =
     and_then (elements v) (\<lambda>xs.
     and_then (dump_items s xs) (\<lambda>ys.
     alloc (OList ys)))"

text \<open>
  The loop over \<open>self.knowledge_base\<close>: an entry that is a model instance is dumped and the
  dump appended, any other entry is appended as it is.
\<close>

fun knowledge_loop :: "val \<Rightarrow> val list \<Rightarrow> store \<Rightarrow> (unit \<times> store) option" where
  "knowledge_loop knowledge_entries [] h = Some ((), h)"
| "knowledge_loop knowledge_entries (item # rest) h =
     (case deref h item of
        Some (OModel attrs) \<Rightarrow>
          (case dump KnowledgeAssertion_schema item h of
             Some (d, h') \<Rightarrow>
               (case append knowledge_entries d h' of
                  Some (u, h'') \<Rightarrow> knowledge_loop knowledge_entries rest h''
                | None \<Rightarrow> None)
           | None \<Rightarrow> None)
      | _ \<Rightarrow>
          (case append knowledge_entries item h of
             Some (u, h') \<Rightarrow> knowledge_loop knowledge_entries rest h'
           | None \<Rightarrow> None))"

definition copy_actions :: "val \<Rightarrow> store \<Rightarrow> (val \<times> store) option" where
  "copy_actions v =
     and_then (elements v) (\<lambda>xs.
       if xs \<noteq> [] then alloc (OList xs) else alloc (OList [VStr ''verify_conditions'']))"

definition dump_constants :: "val \<Rightarrow> store \<Rightarrow> (val \<times> store) option" where
  "dump_constants v =
     and_then (dict_items v) (\<lambda>kvs.
     and_then (dump_values ConstantDefinition_schema kvs) (\<lambda>es.
     alloc (ODict es)))"

definition to_dsl_dict_store :: "val \<Rightarrow> store \<Rightarrow> (val \<times> store) option" where
  "to_dsl_dict_store self =
     and_then (attribute ''sorts'' self) (\<lambda>self_sorts.
     and_then (dump_each SortDefinition_schema self_sorts) (\<lambda>sorts_data.
     and_then (attribute ''functions'' self) (\<lambda>self_functions.
     and_then (dump_each FunctionDefinition_schema self_functions) (\<lambda>functions_data.
     and_then (attribute ''variables'' self) (\<lambda>self_variables.
     and_then (dump_each VariableDefinition_schema self_variables) (\<lambda>variables_data.
     and_then (alloc (OList [])) (\<lambda>knowledge_entries.
     and_then (attribute ''knowledge_base'' self) (\<lambda>self_knowledge_base.
     and_then (elements self_knowledge_base) (\<lambda>entries.
     and_then (knowledge_loop knowledge_entries entries) (\<lambda>u.
     and_then (attribute ''rules'' self) (\<lambda>self_rules.
     and_then (dump_each RuleDefinition_schema self_rules) (\<lambda>rules_data.
     and_then (attribute ''verifications'' self) (\<lambda>self_verifications.
     and_then (dump_each VerificationDefinition_schema self_verifications) (\<lambda>verifications_data.
     and_then (attribute ''actions'' self) (\<lambda>self_actions.
     and_then (copy_actions self_actions) (\<lambda>actions_copy.
     and_then (attribute ''constants'' self) (\<lambda>self_constants.
     and_then (dump_constants self_constants) (\<lambda>constants_data.
     and_then (alloc (ODict
        [(''sorts'', sorts_data),
         (''functions'', functions_data),
         (''constants'', constants_data),
         (''variables'', variables_data),
         (''knowledge_base'', knowledge_entries),
         (''rules'', rules_data),
         (''verifications'', verifications_data),
         (''actions'', actions_copy)])) (\<lambda>program.
     and_then (attribute ''optimization'' self) (\<lambda>self_optimization.
       if self_optimization \<noteq> VNone then
         and_then (dump OptimizationConfig_schema self_optimization) (\<lambda>d.
         and_then (set_item program ''optimization'' d) (\<lambda>u.
         Some \<circ> Pair program))
       else Some \<circ> Pair program))))))))))))))))))))"
subsection \<open>A program in the store\<close>

text \<open>
  The field values of a model, \<open>None\<close> included: what \<open>model_dump()\<close> without
  \<open>exclude_none\<close> gives. Two instances compare equal when these agree.
\<close>

definition or_null :: "('a \<Rightarrow> json) \<Rightarrow> 'a option \<Rightarrow> json" where
  "or_null f v = (case v of None \<Rightarrow> JNull | Some x \<Rightarrow> f x)"

definition values_SortDefinition :: "SortDefinition \<Rightarrow> json" where
  "values_SortDefinition s =
     JObj [(''name'', JStr (sd_name s)), (''type'', JStr (sd_type s)),
           (''values'', or_null str_list (sd_values s)),
           (''description'', or_null JStr (sd_description s))]"

definition values_FunctionDefinition :: "FunctionDefinition \<Rightarrow> json" where
  "values_FunctionDefinition f =
     JObj [(''name'', JStr (fd_name f)), (''domain'', str_list (fd_domain f)),
           (''range'', JStr (fd_range f)),
           (''description'', or_null JStr (fd_description f))]"

definition values_VariableDefinition :: "VariableDefinition \<Rightarrow> json" where
  "values_VariableDefinition v =
     JObj [(''name'', JStr (vd_name v)), (''sort'', JStr (vd_sort v)),
           (''description'', or_null JStr (vd_description v))]"

definition values_KnowledgeAssertion :: "KnowledgeAssertion \<Rightarrow> json" where
  "values_KnowledgeAssertion a =
     JObj [(''assertion'', JStr (ka_assertion a)), (''value'', JBool (ka_value a)),
           (''description'', or_null JStr (ka_description a))]"

definition values_KnowledgeEntry :: "KnowledgeEntry \<Rightarrow> json" where
  "values_KnowledgeEntry e = (case e of Inl s \<Rightarrow> JStr s | Inr a \<Rightarrow> values_KnowledgeAssertion a)"

definition values_QuantifiedVariable :: "QuantifiedVariable \<Rightarrow> json" where
  "values_QuantifiedVariable q = JObj [(''name'', JStr (qv_name q)), (''sort'', JStr (qv_sort q))]"

definition values_RuleImplication :: "RuleImplication \<Rightarrow> json" where
  "values_RuleImplication i =
     JObj [(''antecedent'', JStr (ri_antecedent i)), (''consequent'', JStr (ri_consequent i))]"

definition values_RuleDefinition :: "RuleDefinition \<Rightarrow> json" where
  "values_RuleDefinition r =
     JObj [(''name'', or_null JStr (rd_name r)),
           (''forall'', or_null (\<lambda>qs. JList (map values_QuantifiedVariable qs)) (rd_forall r)),
           (''implies'', or_null values_RuleImplication (rd_implies r)),
           (''constraint'', or_null JStr (rd_constraint r)),
           (''description'', or_null JStr (rd_description r))]"

definition values_VerificationImplication :: "VerificationImplication \<Rightarrow> json" where
  "values_VerificationImplication i =
     JObj [(''antecedent'', JStr (vi_antecedent i)), (''consequent'', JStr (vi_consequent i))]"

definition values_VerificationDefinition :: "VerificationDefinition \<Rightarrow> json" where
  "values_VerificationDefinition v =
     JObj [(''name'', or_null JStr (ver_name v)),
           (''constraint'', or_null JStr (ver_constraint v)),
           (''exists'', or_null (\<lambda>qs. JList (map values_QuantifiedVariable qs)) (ver_exists v)),
           (''forall'', or_null (\<lambda>qs. JList (map values_QuantifiedVariable qs)) (ver_forall v)),
           (''implies'', or_null values_VerificationImplication (ver_implies v)),
           (''description'', or_null JStr (ver_description v))]"

definition values_ObjectiveDefinition :: "ObjectiveDefinition \<Rightarrow> json" where
  "values_ObjectiveDefinition ob =
     JObj [(''type'', JStr (od_type ob)), (''expression'', JStr (od_expression ob))]"

definition values_OptimizationConfig :: "OptimizationConfig \<Rightarrow> json" where
  "values_OptimizationConfig c =
     JObj [(''variables'', JList (map values_VariableDefinition (oc_variables c))),
           (''constraints'', str_list (oc_constraints c)),
           (''objectives'', JList (map values_ObjectiveDefinition (oc_objectives c))),
           (''description'', or_null JStr (oc_description c))]"

definition values_ConstantDefinition :: "ConstantDefinition \<Rightarrow> json" where
  "values_ConstantDefinition c =
     JObj [(''sort'', JStr (cd_sort c)), (''members'', dump_members (cd_members c)),
           (''description'', or_null JStr (cd_description c))]"

definition values_StructuredProgram :: "StructuredProgram \<Rightarrow> json" where
  "values_StructuredProgram p =
     JObj [(''sorts'', JList (map values_SortDefinition (sp_sorts p))),
           (''functions'', JList (map values_FunctionDefinition (sp_functions p))),
           (''constants'',
              JObj (map (\<lambda>(name, constant). (name, values_ConstantDefinition constant))
                     (sp_constants p))),
           (''variables'', JList (map values_VariableDefinition (sp_variables p))),
           (''knowledge_base'', JList (map values_KnowledgeEntry (sp_knowledge_base p))),
           (''rules'', JList (map values_RuleDefinition (sp_rules p))),
           (''verifications'', JList (map values_VerificationDefinition (sp_verifications p))),
           (''optimization'', or_null values_OptimizationConfig (sp_optimization p)),
           (''actions'', str_list (sp_actions p))]"

text \<open>The kind of a field value, read off the value itself.\<close>

fun shape :: "schema \<Rightarrow> json \<Rightarrow> bool" where
  "shape TStr j = (case j of JStr s \<Rightarrow> True | _ \<Rightarrow> False)"
| "shape TBool j = (case j of JBool b \<Rightarrow> True | _ \<Rightarrow> False)"
| "shape (TOptional s) j = (j = JNull \<or> shape s j)"
| "shape (TList s) j = (case j of JList js \<Rightarrow> True | _ \<Rightarrow> False)"
| "shape (TDict s) j = (case j of JObj kvs \<Rightarrow> True | _ \<Rightarrow> False)"
| "shape (TModel fs) j = (case j of JObj kvs \<Rightarrow> True | _ \<Rightarrow> False)"
| "shape (TUnion a b) j = (shape a j \<or> shape b j)"

text \<open>
  \<open>stored n h s v j\<close>: in the store \<open>h\<close> the value \<open>v\<close>, of declared type \<open>s\<close>, has the
  field values \<open>j\<close>, and the objects that hold them all lie below the address \<open>n\<close>.
\<close>

function (sequential)
  stored :: "nat \<Rightarrow> store \<Rightarrow> schema \<Rightarrow> val \<Rightarrow> json \<Rightarrow> bool"
  and stored_items :: "nat \<Rightarrow> store \<Rightarrow> schema \<Rightarrow> val list \<Rightarrow> json list \<Rightarrow> bool"
  and stored_values ::
    "nat \<Rightarrow> store \<Rightarrow> schema \<Rightarrow> (string \<times> val) list \<Rightarrow> (string \<times> json) list \<Rightarrow> bool"
  and stored_fields ::
    "nat \<Rightarrow> store \<Rightarrow> (string \<times> schema) list \<Rightarrow> (string \<times> val) list \<Rightarrow> (string \<times> json) list \<Rightarrow> bool"
  where
  "stored n h TStr v j = (case v of VStr s \<Rightarrow> j = JStr s | _ \<Rightarrow> False)"
| "stored n h TBool v j = (case v of VBool b \<Rightarrow> j = JBool b | _ \<Rightarrow> False)"
| "stored n h (TOptional s) v j = (if v = VNone then j = JNull else stored n h s v j)"
| "stored n h (TList s) v j =
     (case v of
        VRef a \<Rightarrow>
          a < n \<and>
          (case deref h v of
             Some (OList xs) \<Rightarrow> (case j of JList js \<Rightarrow> stored_items n h s xs js | _ \<Rightarrow> False)
           | _ \<Rightarrow> False)
      | _ \<Rightarrow> False)"
| "stored n h (TDict s) v j =
     (case v of
        VRef a \<Rightarrow>
          a < n \<and>
          (case deref h v of
             Some (ODict es) \<Rightarrow> (case j of JObj kvs \<Rightarrow> stored_values n h s es kvs | _ \<Rightarrow> False)
           | _ \<Rightarrow> False)
      | _ \<Rightarrow> False)"
| "stored n h (TModel fs) v j =
     (case v of
        VRef a \<Rightarrow>
          a < n \<and>
          (case deref h v of
             Some (OModel attrs) \<Rightarrow>
               (case j of JObj kvs \<Rightarrow> stored_fields n h fs attrs kvs | _ \<Rightarrow> False)
           | _ \<Rightarrow> False)
      | _ \<Rightarrow> False)"
| "stored n h (TUnion a b) v j =
     ((kind_matches a h v \<longleftrightarrow> shape a j) \<and>
      (if shape a j then stored n h a v j else stored n h b v j))"
| "stored_items n h s [] js = (js = [])"
| "stored_items n h s (x # xs) js =
     (case js of [] \<Rightarrow> False | j # js' \<Rightarrow> stored n h s x j \<and> stored_items n h s xs js')"
| "stored_values n h s [] kvs = (kvs = [])"
| "stored_values n h s ((k, x) # es) kvs =
     (case kvs of
        [] \<Rightarrow> False
      | (k', j) # kvs' \<Rightarrow> k' = k \<and> stored n h s x j \<and> stored_values n h s es kvs')"
| "stored_fields n h [] attrs kvs = (kvs = [])"
| "stored_fields n h ((k, s) # fs) attrs kvs =
     (case kvs of
        [] \<Rightarrow> False
      | (k', j) # kvs' \<Rightarrow>
          k' = k \<and>
          (case map_of attrs k of Some x \<Rightarrow> stored n h s x j | None \<Rightarrow> False) \<and>
          stored_fields n h fs attrs kvs')"
  by pat_completeness auto
termination
  by (relation "inv_image (less_than <*lex*> less_than)
        (\<lambda>x. case x of
           Inl (Inl (n, h, s, v, j)) \<Rightarrow> (size s, 0)
         | Inl (Inr (n, h, s, xs, js)) \<Rightarrow> (size s, Suc (length xs))
         | Inr (Inl (n, h, s, es, kvs)) \<Rightarrow> (size s, Suc (length es))
         | Inr (Inr (n, h, fs, attrs, kvs)) \<Rightarrow> (size_list (size_prod (\<lambda>k. 0) size) fs, 0))")
     auto

text \<open>
  \<open>made lo hi h v j\<close>: in the store \<open>h\<close> the value \<open>v\<close> is the plain data \<open>j\<close> (strings,
  booleans, \<open>None\<close>, lists, dicts), and every list and dict that holds it lies at an
  address from \<open>lo\<close> up to, not including, \<open>hi\<close>.
\<close>

function (sequential)
  made :: "nat \<Rightarrow> nat \<Rightarrow> store \<Rightarrow> val \<Rightarrow> json \<Rightarrow> bool"
  and made_items :: "nat \<Rightarrow> nat \<Rightarrow> store \<Rightarrow> val list \<Rightarrow> json list \<Rightarrow> bool"
  and made_entries :: "nat \<Rightarrow> nat \<Rightarrow> store \<Rightarrow> (string \<times> val) list \<Rightarrow> (string \<times> json) list \<Rightarrow> bool"
  where
  "made lo hi h v JNull = (v = VNone)"
| "made lo hi h v (JBool b) = (v = VBool b)"
| "made lo hi h v (JInt i) = False"
| "made lo hi h v (JFloat r) = False"
| "made lo hi h v (JStr s) = (v = VStr s)"
| "made lo hi h v (JList js) =
     (case v of
        VRef a \<Rightarrow>
          lo \<le> a \<and> a < hi \<and>
          (case deref h v of Some (OList xs) \<Rightarrow> made_items lo hi h xs js | _ \<Rightarrow> False)
      | _ \<Rightarrow> False)"
| "made lo hi h v (JObj kvs) =
     (case v of
        VRef a \<Rightarrow>
          lo \<le> a \<and> a < hi \<and>
          (case deref h v of Some (ODict es) \<Rightarrow> made_entries lo hi h es kvs | _ \<Rightarrow> False)
      | _ \<Rightarrow> False)"
| "made_items lo hi h xs [] = (xs = [])"
| "made_items lo hi h xs (j # js) =
     (case xs of [] \<Rightarrow> False | x # xs' \<Rightarrow> made lo hi h x j \<and> made_items lo hi h xs' js)"
| "made_entries lo hi h es [] = (es = [])"
| "made_entries lo hi h es ((k, j) # kvs) =
     (case es of
        [] \<Rightarrow> False
      | (k', x) # es' \<Rightarrow> k' = k \<and> made lo hi h x j \<and> made_entries lo hi h es' kvs)"
  by pat_completeness auto
termination
  by (relation "measure
        (\<lambda>x. case x of
           Inl (lo, hi, h, v, j) \<Rightarrow> size j
         | Inr (Inl (lo, hi, h, xs, js)) \<Rightarrow> size_list size js
         | Inr (Inr (lo, hi, h, es, kvs)) \<Rightarrow> size_list (size_prod (\<lambda>k. 0) size) kvs)")
     auto

text \<open>What \<open>exclude_none=True\<close> leaves of the field values of a model.\<close>

function (sequential)
  exclude_none :: "schema \<Rightarrow> json \<Rightarrow> json"
  and exclude_none_items :: "schema \<Rightarrow> json list \<Rightarrow> json list"
  and exclude_none_values :: "schema \<Rightarrow> (string \<times> json) list \<Rightarrow> (string \<times> json) list"
  and exclude_none_fields :: "(string \<times> schema) list \<Rightarrow> (string \<times> json) list \<Rightarrow> (string \<times> json) list"
  where
  "exclude_none TStr j = j"
| "exclude_none TBool j = j"
| "exclude_none (TOptional s) j = (if j = JNull then JNull else exclude_none s j)"
| "exclude_none (TList s) j = (case j of JList js \<Rightarrow> JList (exclude_none_items s js) | _ \<Rightarrow> j)"
| "exclude_none (TDict s) j = (case j of JObj kvs \<Rightarrow> JObj (exclude_none_values s kvs) | _ \<Rightarrow> j)"
| "exclude_none (TModel fs) j = (case j of JObj kvs \<Rightarrow> JObj (exclude_none_fields fs kvs) | _ \<Rightarrow> j)"
| "exclude_none (TUnion a b) j = (if shape a j then exclude_none a j else exclude_none b j)"
| "exclude_none_items s [] = []"
| "exclude_none_items s (j # js) = exclude_none s j # exclude_none_items s js"
| "exclude_none_values s [] = []"
| "exclude_none_values s ((k, j) # kvs) = (k, exclude_none s j) # exclude_none_values s kvs"
| "exclude_none_fields [] kvs = []"
| "exclude_none_fields ((k, s) # fs) kvs =
     (case kvs of
        [] \<Rightarrow> []
      | (k', j) # kvs' \<Rightarrow>
          (if exclude_none s j = JNull then exclude_none_fields fs kvs'
           else (k, exclude_none s j) # exclude_none_fields fs kvs'))"
  by pat_completeness auto
termination
  by (relation "inv_image (less_than <*lex*> less_than)
        (\<lambda>x. case x of
           Inl (Inl (s, j)) \<Rightarrow> (size s, 0)
         | Inl (Inr (s, js)) \<Rightarrow> (size s, Suc (length js))
         | Inr (Inl (s, kvs)) \<Rightarrow> (size s, Suc (length kvs))
         | Inr (Inr (fs, kvs)) \<Rightarrow> (size_list (size_prod (\<lambda>k. 0) size) fs, 0))")
     auto

text \<open>Two stores hold the same objects at the addresses from \<open>lo\<close> up to \<open>hi\<close>.\<close>

definition same_on :: "nat \<Rightarrow> nat \<Rightarrow> store \<Rightarrow> store \<Rightarrow> bool" where
  "same_on lo hi h h' \<longleftrightarrow> (\<forall>a. lo \<le> a \<and> a < hi \<longrightarrow> deref h' (VRef a) = deref h (VRef a))"

section \<open>Facts about the validation combinators\<close>

lemma both_Inr_iff: "both a b = Inr p \<longleftrightarrow> (\<exists>x y. a = Inr x \<and> b = Inr y \<and> p = (x, y))"
  by (cases a; cases b) auto

lemma isl_both: "isl (both a b) \<longleftrightarrow> isl a \<or> isl b"
  by (cases a; cases b) auto

lemma map_sum_id_Inr_iff: "map_sum id f r = Inr y \<longleftrightarrow> (\<exists>v. r = Inr v \<and> y = f v)"
  by (cases r) auto

lemma isl_map_sum: "isl (map_sum f g r) = isl r"
  by (cases r) auto

lemma validate_StructuredProgram_fields:
  assumes "validate_StructuredProgram (JObj kvs) = Inr p"
  shows "with_default [] ''sorts'' (list_v validate_SortDefinition) kvs = Inr (sp_sorts p)"
    and "with_default [] ''functions'' (list_v validate_FunctionDefinition) kvs = Inr (sp_functions p)"
    and "with_default [] ''constants'' (dict_v validate_ConstantDefinition) kvs = Inr (sp_constants p)"
    and "with_default [] ''variables'' (list_v validate_VariableDefinition) kvs = Inr (sp_variables p)"
    and "with_default [] ''knowledge_base'' (list_v validate_KnowledgeEntry) kvs = Inr (sp_knowledge_base p)"
    and "with_default [] ''rules'' (list_v validate_RuleDefinition) kvs = Inr (sp_rules p)"
    and "with_default [] ''verifications'' (list_v validate_VerificationDefinition) kvs = Inr (sp_verifications p)"
    and "with_default None ''optimization'' (optional_v validate_OptimizationConfig) kvs = Inr (sp_optimization p)"
    and "with_default [] ''actions'' (list_v str_v) kvs = Inr (sp_actions p)"
    and "forbid_extra StructuredProgram_fields kvs = Inr ()"
  using assms
  by (auto simp: validate_StructuredProgram_def map_sum_id_Inr_iff both_Inr_iff)

section \<open>The actions entry of to\_dsl\_dict\<close>

lemma entry_actions:
  "entry ''actions'' (to_dsl_dict p) =
     Some (JList (map JStr (if sp_actions p = [] then [''verify_conditions''] else sp_actions p)))"
  by (simp add: to_dsl_dict_def Let_def str_list_def)

text \<open>
  C2. When the program's actions list is empty, the dict returned by \<open>to_dsl_dict\<close> has
  \<open>["verify_conditions"]\<close> under \<open>"actions"\<close>; when it is not empty, the entry is that
  list, unchanged. A document without an \<open>actions\<close> key validates to a program with an
  empty list, so it gets the default too.
\<close>

theorem to_dsl_dict_actions_default:
  "(sp_actions p = [] \<longrightarrow>
      entry ''actions'' (to_dsl_dict p) = Some (JList [JStr ''verify_conditions'']))
   \<and> (sp_actions p \<noteq> [] \<longrightarrow>
      entry ''actions'' (to_dsl_dict p) = Some (JList (map JStr (sp_actions p))))
   \<and> (map_of d ''actions'' = None \<and> validate_StructuredProgram (JObj d) = Inr q \<longrightarrow>
      sp_actions q = [] \<and>
      entry ''actions'' (to_dsl_dict q) = Some (JList [JStr ''verify_conditions'']))"
proof -
  have "sp_actions q = []"
    if "map_of d ''actions'' = None" "validate_StructuredProgram (JObj d) = Inr q"
    using validate_StructuredProgram_fields(9)[OF that(2)] that(1)
    by (simp add: with_default_def)
  then show ?thesis by (simp add: entry_actions)
qed

lemma validate_empty_document: "validate_StructuredProgram (JObj []) = Inr empty_program"
  by (simp add: validate_StructuredProgram_def with_default_def forbid_extra_def extra_keys_def
      empty_program_def)

theorem to_dsl_dict_actions_default_witness:
  "entry ''actions'' (to_dsl_dict empty_program) = Some (JList [JStr ''verify_conditions''])
   \<and> entry ''actions'' (to_dsl_dict (empty_program\<lparr>sp_actions := [''optimize'']\<rparr>))
       = Some (JList [JStr ''optimize''])
   \<and> map_of [] ''actions'' = (None :: json option)
   \<and> validate_StructuredProgram (JObj []) = Inr empty_program"
  using to_dsl_dict_actions_default[of empty_program "[]" empty_program]
    to_dsl_dict_actions_default[of "empty_program\<lparr>sp_actions := [''optimize'']\<rparr>" "[]" empty_program]
    validate_empty_document
  by (simp add: empty_program_def)

section \<open>The ways through generate\<close>

lemma call_structured_api_sent:
  "r \<in> set (snd (call_structured_api x self msgs t n)) \<Longrightarrow> r = Responses_parse (model self) msgs t n"
  by (auto simp: call_structured_api_def split: option.splits sum.splits if_splits)

lemma call_structured_api_raised:
  assumes "call_structured_api x self msgs t n = (Inl exc, sent)"
  shows "\<not> is_Exception exc \<and> sent = [Responses_parse (model self) msgs t n]
         \<and> (\<exists>parse_fn. responses_parse (llm_client self) = Some parse_fn
               \<and> parse_fn (model self) msgs t n = Inl exc)"
  using assms by (auto simp: call_structured_api_def split: option.splits sum.splits if_splits)

lemma call_structured_api_parsed:
  assumes "call_structured_api x self msgs t n = (Inr (Some a), sent)"
  shows "sent = [Responses_parse (model self) msgs t n] \<and> \<not> no_structured_output self msgs t n"
  using assms
  by (auto simp: call_structured_api_def no_structured_output_def
      split: option.splits sum.splits if_splits)


lemma is_truthy_Some: "is_truthy r \<Longrightarrow> \<exists>y. r = Some y"
  by (cases r) (auto simp: is_truthy_def)


lemma request_cases:
  obtains (interrupted) exc sent where
      "call_structured_api x self msgs temperature max_tokens = (Inl exc, sent)"
  | (structured) program raw sent where
      "call_structured_api x self msgs temperature max_tokens = (Inr (Some (program, raw)), sent)"
  | (raises) sent exc where
      "call_structured_api x self msgs temperature max_tokens = (Inr None, sent)"
      "chat_completions_create (llm_client self) (model self) msgs max_tokens = Inl exc"
  | (no_content) sent where
      "call_structured_api x self msgs temperature max_tokens = (Inr None, sent)"
      "chat_completions_create (llm_client self) (model self) msgs max_tokens = Inr None"
  | (returns) sent raw where
      "call_structured_api x self msgs temperature max_tokens = (Inr None, sent)"
      "chat_completions_create (llm_client self) (model self) msgs max_tokens = Inr (Some raw)"
proof (cases "call_structured_api x self msgs temperature max_tokens")
  case (Pair r sent)
  show ?thesis
  proof (cases r)
    case (Inl exc)
    then show ?thesis using Pair interrupted by auto
  next
    case (Inr res)
    show ?thesis
    proof (cases res)
      case None
      show ?thesis
      proof (cases "chat_completions_create (llm_client self) (model self) msgs max_tokens")
        case (Inl exc)
        then show ?thesis using Pair Inr None raises by auto
      next
        case (Inr reply)
        then show ?thesis
          using Pair \<open>r = Inr res\<close> None no_content returns by (cases reply) auto
      qed
    next
      case (Some a)
      then show ?thesis using Pair Inr structured by (cases a) auto
    qed
  qed
qed

text \<open>What \<open>generate\<close> makes of a reply: the common end of both methods.\<close>

lemma generate_interrupted:
  assumes "call_structured_api x self (initial_messages (build_prompt x question)) temperature max_tokens
             = (Inl exc, sent)"
  shows "generate x self question temperature max_tokens = (Inl exc, sent)"
  by (simp add: generate_def assms)

lemma generate_structured:
  assumes "call_structured_api x self (initial_messages (build_prompt x question)) temperature max_tokens
             = (Inr (Some (program, raw)), sent)"
  shows "generate x self question temperature max_tokens =
           (Inr \<lparr>json_program = Some program, raw_response = raw, success = True, error = None\<rparr>, sent)"
  by (simp add: generate_def assms)

lemma generate_chat_raises:
  assumes "call_structured_api x self (initial_messages (build_prompt x question)) temperature max_tokens
             = (Inr None, sent)"
    and "chat_completions_create (llm_client self) (model self)
           (initial_messages (build_prompt x question)) max_tokens = Inl exc"
  shows "generate x self question temperature max_tokens =
           (if is_Exception exc then
              Inr \<lparr>json_program = None, raw_response = [], success = False,
                   error = Some (str_of exc)\<rparr>
            else Inl exc,
            sent @ [Chat_create (model self) (initial_messages (build_prompt x question)) max_tokens])"
  by (simp add: generate_def assms call_chat_completion_def)

lemma generate_no_content:
  assumes "call_structured_api x self (initial_messages (build_prompt x question)) temperature max_tokens
             = (Inr None, sent)"
    and "chat_completions_create (llm_client self) (model self)
           (initial_messages (build_prompt x question)) max_tokens = Inr None"
  shows "generate x self question temperature max_tokens =
           (Inl search_type_error,
            sent @ [Chat_create (model self) (initial_messages (build_prompt x question)) max_tokens])"
  by (simp add: generate_def assms call_chat_completion_def)

lemma generate_chat_returns:
  assumes "call_structured_api x self (initial_messages (build_prompt x question)) temperature max_tokens
             = (Inr None, sent)"
    and "chat_completions_create (llm_client self) (model self)
           (initial_messages (build_prompt x question)) max_tokens = Inr (Some raw)"
  shows "generate x self question temperature max_tokens =
           (case extract_json x raw of
              Inl exc \<Rightarrow> Inl exc
            | Inr extracted \<Rightarrow>
                (if is_truthy extracted then
                   Inr \<lparr>json_program = extracted, raw_response = raw, success = True, error = None\<rparr>
                 else
                   Inr \<lparr>json_program = None, raw_response = raw, success = False,
                        error = Some ''Failed to extract valid JSON from response''\<rparr>),
            sent @ [Chat_create (model self) (initial_messages (build_prompt x question)) max_tokens])"
  by (simp add: generate_def assms call_chat_completion_def split: sum.splits)

lemma generate_with_feedback_interrupted:
  assumes "call_structured_api x self
             (feedback_messages (build_prompt x question) previous_response (feedback_text error_trace))
             temperature max_tokens = (Inl exc, sent)"
  shows "generate_with_feedback x self question error_trace previous_response temperature max_tokens
           = (Inl exc, sent)"
  by (simp add: generate_with_feedback_def assms)

lemma generate_with_feedback_structured:
  assumes "call_structured_api x self
             (feedback_messages (build_prompt x question) previous_response (feedback_text error_trace))
             temperature max_tokens = (Inr (Some (program, raw)), sent)"
  shows "generate_with_feedback x self question error_trace previous_response temperature max_tokens =
           (Inr \<lparr>json_program = Some program, raw_response = raw, success = True, error = None\<rparr>, sent)"
  by (simp add: generate_with_feedback_def assms)

lemma generate_with_feedback_chat_raises:
  assumes "call_structured_api x self
             (feedback_messages (build_prompt x question) previous_response (feedback_text error_trace))
             temperature max_tokens = (Inr None, sent)"
    and "chat_completions_create (llm_client self) (model self)
           (feedback_messages (build_prompt x question) previous_response (feedback_text error_trace))
           max_tokens = Inl exc"
  shows "generate_with_feedback x self question error_trace previous_response temperature max_tokens =
           (if is_Exception exc then
              Inr \<lparr>json_program = None, raw_response = [], success = False,
                   error = Some (str_of exc)\<rparr>
            else Inl exc,
            sent @ [Chat_create (model self)
                      (feedback_messages (build_prompt x question) previous_response
                         (feedback_text error_trace)) max_tokens])"
  by (simp add: generate_with_feedback_def assms call_chat_completion_def)

lemma generate_with_feedback_no_content:
  assumes "call_structured_api x self
             (feedback_messages (build_prompt x question) previous_response (feedback_text error_trace))
             temperature max_tokens = (Inr None, sent)"
    and "chat_completions_create (llm_client self) (model self)
           (feedback_messages (build_prompt x question) previous_response (feedback_text error_trace))
           max_tokens = Inr None"
  shows "generate_with_feedback x self question error_trace previous_response temperature max_tokens =
           (Inl search_type_error,
            sent @ [Chat_create (model self)
                      (feedback_messages (build_prompt x question) previous_response
                         (feedback_text error_trace)) max_tokens])"
  by (simp add: generate_with_feedback_def assms call_chat_completion_def)

lemma generate_with_feedback_chat_returns:
  assumes "call_structured_api x self
             (feedback_messages (build_prompt x question) previous_response (feedback_text error_trace))
             temperature max_tokens = (Inr None, sent)"
    and "chat_completions_create (llm_client self) (model self)
           (feedback_messages (build_prompt x question) previous_response (feedback_text error_trace))
           max_tokens = Inr (Some raw)"
  shows "generate_with_feedback x self question error_trace previous_response temperature max_tokens =
           (case extract_json x raw of
              Inl exc \<Rightarrow> Inl exc
            | Inr extracted \<Rightarrow>
                (if is_truthy extracted then
                   Inr \<lparr>json_program = extracted, raw_response = raw, success = True, error = None\<rparr>
                 else
                   Inr \<lparr>json_program = None, raw_response = raw, success = False,
                        error = Some ''Failed to extract valid JSON from feedback response''\<rparr>),
            sent @ [Chat_create (model self)
                      (feedback_messages (build_prompt x question) previous_response
                         (feedback_text error_trace)) max_tokens])"
  by (simp add: generate_with_feedback_def assms call_chat_completion_def split: sum.splits)

section \<open>The invariant of GenerationResult\<close>

lemma generate_invariant:
  assumes "fst (generate x self question temperature max_tokens) = Inr r"
  shows "(success r \<longleftrightarrow> json_program r \<noteq> None) \<and> (success r \<longrightarrow> error r = None)"
proof (cases rule: request_cases[of x self "initial_messages (build_prompt x question)"
          temperature max_tokens])
  case (interrupted exc sent)
  then show ?thesis using assms by (simp add: generate_interrupted)
next
  case (structured program raw sent)
  then show ?thesis using assms by (auto simp: generate_structured)
next
  case (raises sent exc)
  then show ?thesis using assms by (auto simp: generate_chat_raises split: if_splits)
next
  case (no_content sent)
  then show ?thesis using assms by (simp add: generate_no_content)
next
  case (returns sent raw)
  then show ?thesis
    using assms is_truthy_Some[of "projr (extract_json x raw)"]
    by (auto simp: generate_chat_returns split: sum.splits if_splits)
qed

lemma generate_with_feedback_invariant:
  assumes "fst (generate_with_feedback x self question error_trace previous_response
              temperature max_tokens) = Inr r"
  shows "(success r \<longleftrightarrow> json_program r \<noteq> None) \<and> (success r \<longrightarrow> error r = None)"
proof (cases rule: request_cases[of x self
          "feedback_messages (build_prompt x question) previous_response (feedback_text error_trace)"
          temperature max_tokens])
  case (interrupted exc sent)
  then show ?thesis using assms by (simp add: generate_with_feedback_interrupted)
next
  case (structured program raw sent)
  then show ?thesis using assms by (auto simp: generate_with_feedback_structured)
next
  case (raises sent exc)
  then show ?thesis
    using assms by (auto simp: generate_with_feedback_chat_raises split: if_splits)
next
  case (no_content sent)
  then show ?thesis using assms by (simp add: generate_with_feedback_no_content)
next
  case (returns sent raw)
  then show ?thesis
    using assms is_truthy_Some[of "projr (extract_json x raw)"]
    by (auto simp: generate_with_feedback_chat_returns split: sum.splits if_splits)
qed

text \<open>
  C9. Every GenerationResult that \<open>generate\<close> or \<open>generate_with_feedback\<close> returns has
  \<open>success\<close> true exactly when \<open>json_program\<close> is present, and no error whenever
  \<open>success\<close> is true.
\<close>

theorem generation_result_invariant:
  "(fst (generate x self question temperature max_tokens) = Inr r \<longrightarrow>
      (success r \<longleftrightarrow> json_program r \<noteq> None) \<and> (success r \<longrightarrow> error r = None))
   \<and> (fst (generate_with_feedback x self question error_trace previous_response
              temperature max_tokens) = Inr r' \<longrightarrow>
      (success r' \<longleftrightarrow> json_program r' \<noteq> None) \<and> (success r' \<longrightarrow> error r' = None))"
  using generate_invariant[of x self question temperature max_tokens r]
    generate_with_feedback_invariant[of x self question error_trace previous_response
      temperature max_tokens r']
  by blast

lemma build_prompt_sample: "build_prompt sample_externals q = ''Question: '' @ q"
  by (simp add: sample_externals_def)

lemma generate_structured_sample:
  "fst (generate sample_externals structured_generator ''Is 4 even?'' (1/10) 16384) =
     Inr \<lparr>json_program = Some (to_dsl_dict empty_program), raw_response = ''{}'',
          success = True, error = None\<rparr>"
  by (simp add: generate_def call_structured_api_def structured_generator_def)
     (simp add: sample_externals_def)

lemma generate_with_feedback_raising_sample:
  "generate_with_feedback sample_externals raising_generator ''Is 4 even?''
          ''unknown sort'' ''{}'' (1/10) 16384 =
     (Inr \<lparr>json_program = None, raw_response = [], success = False, error = Some ''timeout''\<rparr>,
      [Chat_create ''gpt-4o''
        (feedback_messages ''Question: Is 4 even?'' ''{}'' (feedback_text ''unknown sort'')) 16384])"
  by (simp add: generate_with_feedback_def call_structured_api_def call_chat_completion_def
      raising_generator_def build_prompt_sample is_Exception_def)

theorem generation_result_invariant_witness:
  "fst (generate sample_externals structured_generator ''Is 4 even?'' (1/10) 16384) =
     Inr \<lparr>json_program = Some (to_dsl_dict empty_program), raw_response = ''{}'',
          success = True, error = None\<rparr>
   \<and> fst (generate_with_feedback sample_externals raising_generator ''Is 4 even?''
            ''unknown sort'' ''{}'' (1/10) 16384) =
     Inr \<lparr>json_program = None, raw_response = [], success = False, error = Some ''timeout''\<rparr>"
  using generation_result_invariant[where x = sample_externals and self = structured_generator
      and question = "''Is 4 even?''" and temperature = "1/10" and max_tokens = 16384
      and r = "\<lparr>json_program = Some (to_dsl_dict empty_program), raw_response = ''{}'',
          success = True, error = None\<rparr>"]
    generation_result_invariant[where x = sample_externals and self = raising_generator
      and question = "''Is 4 even?''" and temperature = "1/10" and max_tokens = 16384
      and error_trace = "''unknown sort''" and previous_response = "''{}''"
      and r' = "\<lparr>json_program = None, raw_response = [], success = False,
          error = Some ''timeout''\<rparr>"]
  by (simp add: generate_structured_sample generate_with_feedback_raising_sample)

section \<open>The messages of a feedback request\<close>

text \<open>
  C7. \<open>generate_with_feedback\<close> makes at least one request, and every request it makes
  carries exactly four messages, in this order: the system prompt, the user's question
  prompt, the previous raw response as the assistant, and a user message that starts with
  "There was an error processing your response:", a newline and the error trace.
\<close>

theorem feedback_request_messages:
  "snd (generate_with_feedback x self question error_trace previous_response
          temperature max_tokens) \<noteq> []
   \<and> (\<forall>r \<in> set (snd (generate_with_feedback x self question error_trace previous_response
                        temperature max_tokens)).
        messages_of r =
          [[(''role'', ''system''), (''content'', STRUCTURED_SYSTEM_PROMPT)],
           [(''role'', ''user''), (''content'', build_prompt x question)],
           [(''role'', ''assistant''), (''content'', previous_response)],
           [(''role'', ''user''),
            (''content'', ''There was an error processing your response:'' @ [CHR 0x0A]
                          @ error_trace @ [CHR 0x0A] @ ''Please fix the JSON accordingly.'')]])"
proof -
  let ?msgs = "feedback_messages (build_prompt x question) previous_response
                 (feedback_text error_trace)"
  have msgs: "?msgs =
          [[(''role'', ''system''), (''content'', STRUCTURED_SYSTEM_PROMPT)],
           [(''role'', ''user''), (''content'', build_prompt x question)],
           [(''role'', ''assistant''), (''content'', previous_response)],
           [(''role'', ''user''),
            (''content'', ''There was an error processing your response:'' @ [CHR 0x0A]
                          @ error_trace @ [CHR 0x0A] @ ''Please fix the JSON accordingly.'')]]"
    by (simp add: feedback_messages_def feedback_text_def)
  have sent: "messages_of r = ?msgs"
    if "r \<in> set (snd (call_structured_api x self ?msgs temperature max_tokens))" for r
    using call_structured_api_sent[OF that] by simp
  have "snd (generate_with_feedback x self question error_trace previous_response
          temperature max_tokens) \<noteq> []
   \<and> (\<forall>r \<in> set (snd (generate_with_feedback x self question error_trace previous_response
                        temperature max_tokens)). messages_of r = ?msgs)"
  proof (cases rule: request_cases[of x self ?msgs temperature max_tokens])
    case (interrupted exc sent)
    have "sent \<noteq> []"
      using call_structured_api_raised[OF interrupted] by simp
    then show ?thesis
      using sent interrupted by (simp add: generate_with_feedback_interrupted[OF interrupted])
  next
    case (structured program raw sent)
    have "sent \<noteq> []"
      using call_structured_api_parsed[OF structured] by simp
    then show ?thesis
      using sent structured by (simp add: generate_with_feedback_structured[OF structured])
  next
    case (raises sent exc)
    then show ?thesis
      using sent by (auto simp: generate_with_feedback_chat_raises[OF raises])
  next
    case (no_content sent)
    then show ?thesis
      using sent by (auto simp: generate_with_feedback_no_content[OF no_content])
  next
    case (returns sent raw)
    then show ?thesis
      using sent by (auto simp: generate_with_feedback_chat_returns[OF returns])
  qed
  then show ?thesis unfolding msgs .
qed

theorem feedback_request_messages_witness:
  "Chat_create ''gpt-4o''
      (feedback_messages ''Question: Is 4 even?'' ''{}'' (feedback_text ''unknown sort'')) 16384
     \<in> set (snd (generate_with_feedback sample_externals raising_generator ''Is 4 even?''
                   ''unknown sort'' ''{}'' (1/10) 16384))
   \<and> feedback_messages ''Question: Is 4 even?'' ''{}'' (feedback_text ''unknown sort'') =
       [[(''role'', ''system''), (''content'', STRUCTURED_SYSTEM_PROMPT)],
        [(''role'', ''user''), (''content'', ''Question: Is 4 even?'')],
        [(''role'', ''assistant''), (''content'', ''{}'')],
        [(''role'', ''user''),
         (''content'', ''There was an error processing your response:'' @ [CHR 0x0A]
                       @ ''unknown sort'' @ [CHR 0x0A] @ ''Please fix the JSON accordingly.'')]]"
  using feedback_request_messages[of sample_externals raising_generator "''Is 4 even?''"
      "''unknown sort''" "''{}''" "1/10" 16384]
  by (simp add: generate_with_feedback_raising_sample build_prompt_sample feedback_messages_def
      feedback_text_def)

section \<open>The knowledge base of to\_dsl\_dict\<close>

lemma entry_knowledge_base:
  "entry ''knowledge_base'' (to_dsl_dict p) = Some (JList (map knowledge_entry (sp_knowledge_base p)))"
  by (simp add: to_dsl_dict_def Let_def)

lemma dump_KnowledgeAssertion_entries:
  "entry ''assertion'' (dump_KnowledgeAssertion a) = Some (JStr (ka_assertion a))"
  "entry ''value'' (dump_KnowledgeAssertion a) = Some (JBool (ka_value a))"
  by (simp_all add: dump_KnowledgeAssertion_def)

lemma validate_KnowledgeAssertion_fields:
  assumes "validate_KnowledgeAssertion (JObj kvs) = Inr a"
  shows "required ''assertion'' str_v kvs = Inr (ka_assertion a)"
    and "with_default True ''value'' bool_v kvs = Inr (ka_value a)"
    and "with_default None ''description'' (optional_v str_v) kvs = Inr (ka_description a)"
    and "forbid_extra KnowledgeAssertion_fields kvs = Inr ()"
  using assms
  by (auto simp: validate_KnowledgeAssertion_def map_sum_id_Inr_iff both_Inr_iff)

lemma validate_KnowledgeEntry_JObj:
  "validate_KnowledgeEntry (JObj kvs) = Inr r \<Longrightarrow>
     \<exists>a. r = Inr a \<and> validate_KnowledgeAssertion (JObj kvs) = Inr a"
  by (auto simp: validate_KnowledgeEntry_def union_v_def str_v_def fail_def split: sum.splits)

text \<open>
  C6. The \<open>"knowledge_base"\<close> entry of the returned dict lists the program's entries in
  order: a bare string as it is, a KnowledgeAssertion as a dict with its assertion text under
  \<open>"assertion"\<close> and its truth value under \<open>"value"\<close>. An assertion that the document
  gave without a \<open>value\<close> key has the truth value \<open>True\<close>.
\<close>

theorem to_dsl_dict_knowledge_base:
  "(\<exists>ys. entry ''knowledge_base'' (to_dsl_dict p) = Some (JList ys)
      \<and> length ys = length (sp_knowledge_base p)
      \<and> (\<forall>i < length ys.
            (\<forall>s. sp_knowledge_base p ! i = Inl s \<longrightarrow> ys ! i = JStr s)
            \<and> (\<forall>a. sp_knowledge_base p ! i = Inr a \<longrightarrow>
                  (\<exists>fields. ys ! i = JObj fields)
                  \<and> entry ''assertion'' (ys ! i) = Some (JStr (ka_assertion a))
                  \<and> entry ''value'' (ys ! i) = Some (JBool (ka_value a)))))
   \<and> (\<forall>e r. map_of e ''value'' = None \<and> validate_KnowledgeEntry (JObj e) = Inr r \<longrightarrow>
         (\<exists>a. r = Inr a \<and> ka_value a = True))"
proof (intro conjI allI impI)
  show "\<exists>ys. entry ''knowledge_base'' (to_dsl_dict p) = Some (JList ys)
      \<and> length ys = length (sp_knowledge_base p)
      \<and> (\<forall>i < length ys.
            (\<forall>s. sp_knowledge_base p ! i = Inl s \<longrightarrow> ys ! i = JStr s)
            \<and> (\<forall>a. sp_knowledge_base p ! i = Inr a \<longrightarrow>
                  (\<exists>fields. ys ! i = JObj fields)
                  \<and> entry ''assertion'' (ys ! i) = Some (JStr (ka_assertion a))
                  \<and> entry ''value'' (ys ! i) = Some (JBool (ka_value a))))"
    by (rule exI[of _ "map knowledge_entry (sp_knowledge_base p)"])
       (auto simp: entry_knowledge_base knowledge_entry_def dump_KnowledgeAssertion_def)
next
  fix e r
  assume h: "map_of e ''value'' = None \<and> validate_KnowledgeEntry (JObj e) = Inr r"
  then obtain a where a: "r = Inr a" "validate_KnowledgeAssertion (JObj e) = Inr a"
    using validate_KnowledgeEntry_JObj by blast
  have "ka_value a = True"
    using validate_KnowledgeAssertion_fields(2)[OF a(2)] h by (simp add: with_default_def)
  then show "\<exists>a. r = Inr a \<and> ka_value a = True"
    using a(1) by simp
qed

lemma validate_KnowledgeEntry_sample:
  "validate_KnowledgeEntry (JObj [(''assertion'', JStr ''x = 5'')]) =
     Inr (Inr \<lparr>ka_assertion = ''x = 5'', ka_value = True, ka_description = None\<rparr>)"
  by (simp add: validate_KnowledgeEntry_def union_v_def str_v_def fail_def
      validate_KnowledgeAssertion_def required_def with_default_def under_def forbid_extra_def
      extra_keys_def KnowledgeAssertion_fields_def)

theorem to_dsl_dict_knowledge_base_witness:
  "entry ''knowledge_base'' (to_dsl_dict sample_knowledge) =
     Some (JList [JStr ''x = 4'', JObj [(''assertion'', JStr ''x = 5''), (''value'', JBool False)]])
   \<and> map_of [(''assertion'', JStr ''x = 5'')] ''value'' = None
   \<and> validate_KnowledgeEntry (JObj [(''assertion'', JStr ''x = 5'')]) =
       Inr (Inr \<lparr>ka_assertion = ''x = 5'', ka_value = True, ka_description = None\<rparr>)"
  using to_dsl_dict_knowledge_base[of sample_knowledge]
  by (simp add: validate_KnowledgeEntry_sample entry_knowledge_base sample_knowledge_def
      knowledge_entry_def dump_KnowledgeAssertion_def unless_none_def empty_program_def)

section \<open>What an accepted document looks like\<close>

lemma under_Inr_iff: "under l r = Inr v \<longleftrightarrow> r = Inr v"
  by (cases r) (auto simp: under_def)

lemma isl_under: "isl (under l r) = isl r"
  by (simp add: under_def isl_map_sum)

lemma items_v_Inr_iff:
  "items_v f i xs = Inr ys \<longleftrightarrow> list_all2 (\<lambda>x y. f x = Inr y) xs ys"
proof (induction xs arbitrary: i ys)
  case Nil
  then show ?case by auto
next
  case (Cons x xs)
  then show ?case
    by (cases ys) (auto simp: map_sum_id_Inr_iff both_Inr_iff under_Inr_iff)
qed

lemma list_v_Inr_iff:
  "list_v f j = Inr ys \<longleftrightarrow> (\<exists>xs. j = JList xs \<and> list_all2 (\<lambda>x y. f x = Inr y) xs ys)"
  by (cases j) (auto simp: list_v_def fail_def items_v_Inr_iff)

lemma str_v_Inr_iff: "str_v j = Inr s \<longleftrightarrow> j = JStr s"
  by (cases j) (auto simp: str_v_def fail_def)

lemma list_all2_JStr: "list_all2 (\<lambda>x y. x = JStr y) xs ys \<longleftrightarrow> xs = map JStr ys"
  by (induction xs arbitrary: ys) (auto simp: list_all2_Cons1)

lemma list_v_str_v_Inr_iff: "list_v str_v j = Inr ss \<longleftrightarrow> j = JList (map JStr ss)"
  by (simp add: list_v_Inr_iff str_v_Inr_iff list_all2_JStr)



lemma with_default_Some: "map_of kvs k = Some j \<Longrightarrow> with_default d k f kvs = under (Key k) (f j)"
  by (simp add: with_default_def)






section \<open>The actions of an accepted document\<close>

lemma validate_actions_only:
  "validate_StructuredProgram (JObj [(''actions'', JList (map JStr ss))]) =
     Inr (empty_program\<lparr>sp_actions := ss\<rparr>)"
proof -
  have "list_v str_v (JList (map JStr ss)) = Inr ss"
    by (simp add: list_v_str_v_Inr_iff)
  then show ?thesis
    by (simp add: validate_StructuredProgram_def with_default_def under_def forbid_extra_def
        extra_keys_def StructuredProgram_fields_def empty_program_def)
qed

text \<open>
  C3, as stated, fails: \<open>actions\<close> is declared \<open>List[str]\<close>, so a document whose actions
  list holds a string other than \<open>"verify_conditions"\<close> and \<open>"optimize"\<close> is accepted.
\<close>

theorem actions_restricted_counterexample:
  "validate_StructuredProgram (JObj [(''actions'', JList [JStr ''launch''])]) =
     Inr (empty_program\<lparr>sp_actions := [''launch'']\<rparr>)
   \<and> ''launch'' \<in> set (sp_actions (empty_program\<lparr>sp_actions := [''launch'']\<rparr>))
   \<and> ''launch'' \<noteq> ''verify_conditions'' \<and> ''launch'' \<noteq> ''optimize''"
  using validate_actions_only[of "[''launch'']"] by simp

text \<open>
  C3, amended. In a document accepted as a StructuredProgram the value under \<open>actions\<close>,
  when there is one, is a list of strings, and the program's actions are these strings in
  order; a document whose actions list has an element that is not a string is rejected; and
  every list of strings is accepted as actions, whatever the strings are.
\<close>

theorem actions_are_strings:
  "(validate_StructuredProgram (JObj d) = Inr p \<and> map_of d ''actions'' = Some a \<longrightarrow>
      a = JList (map JStr (sp_actions p)))
   \<and> (map_of d ''actions'' = Some (JList xs) \<and> (\<exists>x \<in> set xs. \<forall>s. x \<noteq> JStr s) \<longrightarrow>
      isl (validate_StructuredProgram (JObj d)))
   \<and> validate_StructuredProgram (JObj [(''actions'', JList (map JStr ss))]) =
       Inr (empty_program\<lparr>sp_actions := ss\<rparr>)"
proof (intro conjI impI)
  assume h: "validate_StructuredProgram (JObj d) = Inr p \<and> map_of d ''actions'' = Some a"
  then have "with_default [] ''actions'' (list_v str_v) d = Inr (sp_actions p)"
    using validate_StructuredProgram_fields(9) by blast
  then show "a = JList (map JStr (sp_actions p))"
    using h by (simp add: with_default_Some under_Inr_iff list_v_str_v_Inr_iff)
next
  assume h: "map_of d ''actions'' = Some (JList xs) \<and> (\<exists>x \<in> set xs. \<forall>s. x \<noteq> JStr s)"
  show "isl (validate_StructuredProgram (JObj d))"
  proof (rule ccontr)
    assume "\<not> isl (validate_StructuredProgram (JObj d))"
    then obtain q where q: "validate_StructuredProgram (JObj d) = Inr q"
      by (cases "validate_StructuredProgram (JObj d)") auto
    have "with_default [] ''actions'' (list_v str_v) d = Inr (sp_actions q)"
      using validate_StructuredProgram_fields(9)[OF q] .
    then have "xs = map JStr (sp_actions q)"
      using h by (simp add: with_default_Some under_Inr_iff list_v_str_v_Inr_iff)
    then show False using h by auto
  qed
next
  show "validate_StructuredProgram (JObj [(''actions'', JList (map JStr ss))]) =
       Inr (empty_program\<lparr>sp_actions := ss\<rparr>)"
    by (rule validate_actions_only)
qed

lemma validate_actions_number:
  "isl (validate_StructuredProgram (JObj [(''actions'', JList [JInt 1])]))"
  by (simp add: validate_StructuredProgram_def isl_map_sum isl_both with_default_def isl_under
      list_v_def str_v_def fail_def)

theorem actions_are_strings_witness:
  "validate_StructuredProgram (JObj [(''actions'', JList (map JStr [''optimize'', ''launch'']))]) =
     Inr (empty_program\<lparr>sp_actions := [''optimize'', ''launch'']\<rparr>)
   \<and> map_of [(''actions'', JList (map JStr [''optimize'', ''launch'']))] ''actions''
       = Some (JList (map JStr (sp_actions (empty_program\<lparr>sp_actions := [''optimize'', ''launch'']\<rparr>))))
   \<and> map_of [(''actions'', JList [JInt 1])] ''actions'' = Some (JList [JInt 1])
   \<and> JInt 1 \<in> set [JInt 1]
   \<and> isl (validate_StructuredProgram (JObj [(''actions'', JList [JInt 1])]))"
  using actions_are_strings[of "[(''actions'', JList (map JStr [''optimize'', ''launch'']))]"
      "empty_program\<lparr>sp_actions := [''optimize'', ''launch'']\<rparr>"
      "JList (map JStr [''optimize'', ''launch''])" "[JInt 1]" "[''optimize'', ''launch'']"]
    actions_are_strings[of "[(''actions'', JList [JInt 1])]" empty_program JNull "[JInt 1]" "[]"]
  by simp

section \<open>Repeated names\<close>












section \<open>The schema is closed\<close>

lemma reports_both: "reports t (both a b) \<longleftrightarrow> reports t a \<or> reports t b"
  by (cases a; cases b) (auto simp: reports_def)

lemma reports_map_sum: "reports t (map_sum id f r) = reports t r"
  by (cases r) (auto simp: reports_def)

lemma snd_nested: "snd ` set (nested l e) = snd ` set e"
  by (force simp: nested_def)

lemma reports_under: "reports t (under l r) = reports t r"
  by (cases r) (auto simp: reports_def under_def snd_nested)

lemma reports_forbid_extra:
  "stray declared (JObj kvs) \<Longrightarrow> reports Extra_forbidden (forbid_extra declared kvs)"
  by (auto simp: stray_def forbid_extra_def extra_keys_def reports_def filter_empty_conv image_iff)

lemma reports_required:
  "map_of kvs k = Some j \<Longrightarrow> reports t (required k f kvs) = reports t (f j)"
  by (simp add: required_def reports_under)

lemma reports_with_default:
  "map_of kvs k = Some j \<Longrightarrow> reports t (with_default d k f kvs) = reports t (f j)"
  by (simp add: with_default_def reports_under)

lemma reports_optional: "j \<noteq> JNull \<Longrightarrow> reports t (optional_v f j) = reports t (f j)"
  by (cases j) (auto simp: optional_v_def reports_map_sum reports_def split: sum.splits)

lemma reports_items:
  "x \<in> set xs \<Longrightarrow> reports t (f x) \<Longrightarrow> reports t (items_v f i xs)"
  by (induction xs arbitrary: i) (auto simp: reports_map_sum reports_both reports_under)

lemma reports_list:
  "in_list (\<lambda>x. reports t (f x)) j \<Longrightarrow> reports t (list_v f j)"
  by (cases j) (auto simp: in_list_def list_v_def reports_items)

lemma reports_entries:
  "(k, v) \<in> set kvs \<Longrightarrow> reports t (f v) \<Longrightarrow> reports t (entries_v f kvs)"
proof (induction kvs)
  case Nil
  then show ?case by simp
next
  case (Cons kv kvs)
  then show ?case
    by (cases kv) (auto simp: reports_map_sum reports_both reports_under)
qed

lemma reports_dict:
  "in_dict (\<lambda>v. reports t (f v)) j \<Longrightarrow> reports t (dict_v f j)"
  by (cases j) (auto simp: in_dict_def dict_v_def intro: reports_entries)

lemma in_list_mono: "in_list P j \<Longrightarrow> (\<And>x. P x \<Longrightarrow> Q x) \<Longrightarrow> in_list Q j"
  by (cases j) (auto simp: in_list_def)

lemma in_dict_mono: "in_dict P j \<Longrightarrow> (\<And>x. P x \<Longrightarrow> Q x) \<Longrightarrow> in_dict Q j"
  by (cases j) (auto simp: in_dict_def)

lemma in_list_not_null: "in_list P j \<Longrightarrow> j \<noteq> JNull"
  by (auto simp: in_list_def)

lemma stray_not_null: "stray declared j \<Longrightarrow> j \<noteq> JNull"
  by (auto simp: stray_def)

lemma stray_obj: "stray declared j \<Longrightarrow> \<exists>kvs. j = JObj kvs"
  by (cases j) (auto simp: stray_def)

lemma at_keyD: "at_key k P j \<Longrightarrow> \<exists>kvs v. j = JObj kvs \<and> map_of kvs k = Some v \<and> P v"
  by (cases j) (auto simp: at_key_def split: option.splits)

lemma unknown_key_SortDefinition:
  assumes "unknown_key_SortDefinition j"
  shows "reports Extra_forbidden (validate_SortDefinition j)"
proof -
  obtain kvs where j: "j = JObj kvs"
    using assms stray_obj unfolding unknown_key_SortDefinition_def by blast
  then have "reports Extra_forbidden (forbid_extra SortDefinition_fields kvs)"
    using assms unfolding unknown_key_SortDefinition_def by (simp add: reports_forbid_extra)
  then show ?thesis
    by (simp add: j validate_SortDefinition_def reports_map_sum reports_both)
qed

lemma unknown_key_FunctionDefinition:
  assumes "unknown_key_FunctionDefinition j"
  shows "reports Extra_forbidden (validate_FunctionDefinition j)"
proof -
  obtain kvs where j: "j = JObj kvs"
    using assms stray_obj unfolding unknown_key_FunctionDefinition_def by blast
  then have "reports Extra_forbidden (forbid_extra FunctionDefinition_fields kvs)"
    using assms unfolding unknown_key_FunctionDefinition_def by (simp add: reports_forbid_extra)
  then show ?thesis
    by (simp add: j validate_FunctionDefinition_def reports_map_sum reports_both)
qed

lemma unknown_key_VariableDefinition:
  assumes "unknown_key_VariableDefinition j"
  shows "reports Extra_forbidden (validate_VariableDefinition j)"
proof -
  obtain kvs where j: "j = JObj kvs"
    using assms stray_obj unfolding unknown_key_VariableDefinition_def by blast
  then have "reports Extra_forbidden (forbid_extra VariableDefinition_fields kvs)"
    using assms unfolding unknown_key_VariableDefinition_def by (simp add: reports_forbid_extra)
  then show ?thesis
    by (simp add: j validate_VariableDefinition_def reports_map_sum reports_both)
qed

lemma unknown_key_KnowledgeAssertion:
  assumes "unknown_key_KnowledgeAssertion j"
  shows "reports Extra_forbidden (validate_KnowledgeAssertion j)"
proof -
  obtain kvs where j: "j = JObj kvs"
    using assms stray_obj unfolding unknown_key_KnowledgeAssertion_def by blast
  then have "reports Extra_forbidden (forbid_extra KnowledgeAssertion_fields kvs)"
    using assms unfolding unknown_key_KnowledgeAssertion_def by (simp add: reports_forbid_extra)
  then show ?thesis
    by (simp add: j validate_KnowledgeAssertion_def reports_map_sum reports_both)
qed

lemma unknown_key_QuantifiedVariable:
  assumes "unknown_key_QuantifiedVariable j"
  shows "reports Extra_forbidden (validate_QuantifiedVariable j)"
proof -
  obtain kvs where j: "j = JObj kvs"
    using assms stray_obj unfolding unknown_key_QuantifiedVariable_def by blast
  then have "reports Extra_forbidden (forbid_extra QuantifiedVariable_fields kvs)"
    using assms unfolding unknown_key_QuantifiedVariable_def by (simp add: reports_forbid_extra)
  then show ?thesis
    by (simp add: j validate_QuantifiedVariable_def reports_map_sum reports_both)
qed

lemma unknown_key_RuleImplication:
  assumes "unknown_key_RuleImplication j"
  shows "reports Extra_forbidden (validate_RuleImplication j)"
proof -
  obtain kvs where j: "j = JObj kvs"
    using assms stray_obj unfolding unknown_key_RuleImplication_def by blast
  then have "reports Extra_forbidden (forbid_extra RuleImplication_fields kvs)"
    using assms unfolding unknown_key_RuleImplication_def by (simp add: reports_forbid_extra)
  then show ?thesis
    by (simp add: j validate_RuleImplication_def reports_map_sum reports_both)
qed

lemma unknown_key_VerificationImplication:
  assumes "unknown_key_VerificationImplication j"
  shows "reports Extra_forbidden (validate_VerificationImplication j)"
proof -
  obtain kvs where j: "j = JObj kvs"
    using assms stray_obj unfolding unknown_key_VerificationImplication_def by blast
  then have "reports Extra_forbidden (forbid_extra VerificationImplication_fields kvs)"
    using assms unfolding unknown_key_VerificationImplication_def by (simp add: reports_forbid_extra)
  then show ?thesis
    by (simp add: j validate_VerificationImplication_def reports_map_sum reports_both)
qed

lemma unknown_key_ObjectiveDefinition:
  assumes "unknown_key_ObjectiveDefinition j"
  shows "reports Extra_forbidden (validate_ObjectiveDefinition j)"
proof -
  obtain kvs where j: "j = JObj kvs"
    using assms stray_obj unfolding unknown_key_ObjectiveDefinition_def by blast
  then have "reports Extra_forbidden (forbid_extra ObjectiveDefinition_fields kvs)"
    using assms unfolding unknown_key_ObjectiveDefinition_def by (simp add: reports_forbid_extra)
  then show ?thesis
    by (simp add: j validate_ObjectiveDefinition_def reports_map_sum reports_both)
qed

lemma unknown_key_ConstantDefinition:
  assumes "unknown_key_ConstantDefinition j"
  shows "reports Extra_forbidden (validate_ConstantDefinition j)"
proof -
  obtain kvs where j: "j = JObj kvs"
    using assms stray_obj unfolding unknown_key_ConstantDefinition_def by blast
  then have "reports Extra_forbidden (forbid_extra ConstantDefinition_fields kvs)"
    using assms unfolding unknown_key_ConstantDefinition_def by (simp add: reports_forbid_extra)
  then show ?thesis
    by (simp add: j validate_ConstantDefinition_def reports_map_sum reports_both)
qed

lemma unknown_key_KnowledgeEntry:
  assumes "unknown_key_KnowledgeAssertion j"
  shows "reports Extra_forbidden (validate_KnowledgeEntry j)"
proof -
  obtain kvs where j: "j = JObj kvs"
    using assms stray_obj unfolding unknown_key_KnowledgeAssertion_def by blast
  obtain e where e: "validate_KnowledgeAssertion j = Inl e" "Extra_forbidden \<in> snd ` set e"
    using unknown_key_KnowledgeAssertion[OF assms]
    by (cases "validate_KnowledgeAssertion j") (auto simp: reports_def)
  show ?thesis
    using e by (simp add: validate_KnowledgeEntry_def union_v_def j str_v_def fail_def
        reports_def snd_nested)
qed

lemma reports_optional_list:
  assumes "map_of kvs k = Some v" and "in_list P v"
    and "\<And>x. P x \<Longrightarrow> reports t (f x)"
  shows "reports t (with_default None k (optional_v (list_v f)) kvs)"
proof -
  have "reports t (list_v f v)"
    using assms(2,3) by (intro reports_list) (rule in_list_mono)
  then show ?thesis
    using assms(1) in_list_not_null[OF assms(2)]
    by (simp add: reports_with_default reports_optional)
qed

lemma reports_default_list:
  assumes "map_of kvs k = Some v" and "in_list P v"
    and "\<And>x. P x \<Longrightarrow> reports t (f x)"
  shows "reports t (with_default [] k (list_v f) kvs)"
proof -
  have "reports t (list_v f v)"
    using assms(2,3) by (intro reports_list) (rule in_list_mono)
  then show ?thesis
    using assms(1) by (simp add: reports_with_default)
qed

lemma reports_optional_model:
  assumes "map_of kvs k = Some v" and "stray declared v"
    and "reports t (f v)"
  shows "reports t (with_default None k (optional_v f) kvs)"
  using assms stray_not_null[OF assms(2)]
  by (simp add: reports_with_default reports_optional)

lemma unknown_key_RuleDefinition:
  assumes "unknown_key_RuleDefinition j"
  shows "reports Extra_forbidden (validate_RuleDefinition j)"
proof -
  consider (top) "stray RuleDefinition_fields j"
    | (forall) "at_key ''forall'' (in_list unknown_key_QuantifiedVariable) j"
    | (implies) "at_key ''implies'' unknown_key_RuleImplication j"
    using assms unfolding unknown_key_RuleDefinition_def by blast
  then show ?thesis
  proof cases
    case top
    then obtain kvs where j: "j = JObj kvs"
      using stray_obj by blast
    then have "reports Extra_forbidden (forbid_extra RuleDefinition_fields kvs)"
      using top by (simp add: reports_forbid_extra)
    then show ?thesis
      by (simp add: j validate_RuleDefinition_def reports_map_sum reports_both)
  next
    case forall
    then obtain kvs v where j: "j = JObj kvs" and v: "map_of kvs ''forall'' = Some v"
      and u: "in_list unknown_key_QuantifiedVariable v"
      using at_keyD by blast
    have "reports Extra_forbidden
            (with_default None ''forall'' (optional_v (list_v validate_QuantifiedVariable)) kvs)"
      using v u unknown_key_QuantifiedVariable by (rule reports_optional_list)
    then show ?thesis
      by (simp add: j validate_RuleDefinition_def reports_map_sum reports_both)
  next
    case implies
    then obtain kvs v where j: "j = JObj kvs" and v: "map_of kvs ''implies'' = Some v"
      and u: "unknown_key_RuleImplication v"
      using at_keyD by blast
    have "reports Extra_forbidden
            (with_default None ''implies'' (optional_v validate_RuleImplication) kvs)"
      using v u[unfolded unknown_key_RuleImplication_def] unknown_key_RuleImplication[OF u]
      by (rule reports_optional_model)
    then show ?thesis
      by (simp add: j validate_RuleDefinition_def reports_map_sum reports_both)
  qed
qed

lemma unknown_key_VerificationDefinition:
  assumes "unknown_key_VerificationDefinition j"
  shows "reports Extra_forbidden (validate_VerificationDefinition j)"
proof -
  consider (top) "stray VerificationDefinition_fields j"
    | (exists) "at_key ''exists'' (in_list unknown_key_QuantifiedVariable) j"
    | (forall) "at_key ''forall'' (in_list unknown_key_QuantifiedVariable) j"
    | (implies) "at_key ''implies'' unknown_key_VerificationImplication j"
    using assms unfolding unknown_key_VerificationDefinition_def by blast
  then show ?thesis
  proof cases
    case top
    then obtain kvs where j: "j = JObj kvs"
      using stray_obj by blast
    then have "reports Extra_forbidden (forbid_extra VerificationDefinition_fields kvs)"
      using top by (simp add: reports_forbid_extra)
    then show ?thesis
      by (simp add: j validate_VerificationDefinition_def reports_map_sum reports_both)
  next
    case exists
    then obtain kvs v where j: "j = JObj kvs" and v: "map_of kvs ''exists'' = Some v"
      and u: "in_list unknown_key_QuantifiedVariable v"
      using at_keyD by blast
    have "reports Extra_forbidden
            (with_default None ''exists'' (optional_v (list_v validate_QuantifiedVariable)) kvs)"
      using v u unknown_key_QuantifiedVariable by (rule reports_optional_list)
    then show ?thesis
      by (simp add: j validate_VerificationDefinition_def reports_map_sum reports_both)
  next
    case forall
    then obtain kvs v where j: "j = JObj kvs" and v: "map_of kvs ''forall'' = Some v"
      and u: "in_list unknown_key_QuantifiedVariable v"
      using at_keyD by blast
    have "reports Extra_forbidden
            (with_default None ''forall'' (optional_v (list_v validate_QuantifiedVariable)) kvs)"
      using v u unknown_key_QuantifiedVariable by (rule reports_optional_list)
    then show ?thesis
      by (simp add: j validate_VerificationDefinition_def reports_map_sum reports_both)
  next
    case implies
    then obtain kvs v where j: "j = JObj kvs" and v: "map_of kvs ''implies'' = Some v"
      and u: "unknown_key_VerificationImplication v"
      using at_keyD by blast
    have "reports Extra_forbidden
            (with_default None ''implies'' (optional_v validate_VerificationImplication) kvs)"
      using v u[unfolded unknown_key_VerificationImplication_def]
        unknown_key_VerificationImplication[OF u]
      by (rule reports_optional_model)
    then show ?thesis
      by (simp add: j validate_VerificationDefinition_def reports_map_sum reports_both)
  qed
qed

lemma unknown_key_OptimizationConfig:
  assumes "unknown_key_OptimizationConfig j"
  shows "reports Extra_forbidden (validate_OptimizationConfig j)"
proof -
  consider (top) "stray OptimizationConfig_fields j"
    | (variables) "at_key ''variables'' (in_list unknown_key_VariableDefinition) j"
    | (objectives) "at_key ''objectives'' (in_list unknown_key_ObjectiveDefinition) j"
    using assms unfolding unknown_key_OptimizationConfig_def by blast
  then show ?thesis
  proof cases
    case top
    then obtain kvs where j: "j = JObj kvs"
      using stray_obj by blast
    then have "reports Extra_forbidden (forbid_extra OptimizationConfig_fields kvs)"
      using top by (simp add: reports_forbid_extra)
    then show ?thesis
      by (simp add: j validate_OptimizationConfig_def reports_map_sum reports_both)
  next
    case variables
    then obtain kvs v where j: "j = JObj kvs" and v: "map_of kvs ''variables'' = Some v"
      and u: "in_list unknown_key_VariableDefinition v"
      using at_keyD by blast
    have "reports Extra_forbidden
            (with_default [] ''variables'' (list_v validate_VariableDefinition) kvs)"
      using v u unknown_key_VariableDefinition by (rule reports_default_list)
    then show ?thesis
      by (simp add: j validate_OptimizationConfig_def reports_map_sum reports_both)
  next
    case objectives
    then obtain kvs v where j: "j = JObj kvs" and v: "map_of kvs ''objectives'' = Some v"
      and u: "in_list unknown_key_ObjectiveDefinition v"
      using at_keyD by blast
    have "reports Extra_forbidden
            (with_default [] ''objectives'' (list_v validate_ObjectiveDefinition) kvs)"
      using v u unknown_key_ObjectiveDefinition by (rule reports_default_list)
    then show ?thesis
      by (simp add: j validate_OptimizationConfig_def reports_map_sum reports_both)
  qed
qed

lemma unknown_key_OptimizationConfig_not_null:
  "unknown_key_OptimizationConfig v \<Longrightarrow> v \<noteq> JNull"
  by (auto simp: unknown_key_OptimizationConfig_def stray_def at_key_def)


lemma unknown_key_reports:
  assumes "unknown_key j"
  shows "reports Extra_forbidden (validate_StructuredProgram j)"
proof -
  consider (in_top) "stray StructuredProgram_fields j"
    | (in_sorts) "at_key ''sorts'' (in_list unknown_key_SortDefinition) j"
    | (in_functions) "at_key ''functions'' (in_list unknown_key_FunctionDefinition) j"
    | (in_constants) "at_key ''constants'' (in_dict unknown_key_ConstantDefinition) j"
    | (in_variables) "at_key ''variables'' (in_list unknown_key_VariableDefinition) j"
    | (in_knowledge_base) "at_key ''knowledge_base'' (in_list unknown_key_KnowledgeAssertion) j"
    | (in_rules) "at_key ''rules'' (in_list unknown_key_RuleDefinition) j"
    | (in_verifications) "at_key ''verifications'' (in_list unknown_key_VerificationDefinition) j"
    | (in_optimization) "at_key ''optimization'' unknown_key_OptimizationConfig j"
    using assms unfolding unknown_key_def by blast
  then show ?thesis
  proof cases
    case in_top
    then obtain kvs where j: "j = JObj kvs"
      using stray_obj by blast
    then have "reports Extra_forbidden (forbid_extra StructuredProgram_fields kvs)"
      using in_top by (simp add: reports_forbid_extra)
    then show ?thesis
      by (simp add: j validate_StructuredProgram_def reports_map_sum reports_both)
  next
    case in_sorts
    then obtain kvs v where j: "j = JObj kvs" and v: "map_of kvs ''sorts'' = Some v"
      and u: "in_list unknown_key_SortDefinition v"
      using at_keyD by blast
    have "reports Extra_forbidden (with_default [] ''sorts'' (list_v validate_SortDefinition) kvs)"
      using v u unknown_key_SortDefinition by (rule reports_default_list)
    then show ?thesis
      by (simp add: j validate_StructuredProgram_def reports_map_sum reports_both)
  next
    case in_functions
    then obtain kvs v where j: "j = JObj kvs" and v: "map_of kvs ''functions'' = Some v"
      and u: "in_list unknown_key_FunctionDefinition v"
      using at_keyD by blast
    have "reports Extra_forbidden
            (with_default [] ''functions'' (list_v validate_FunctionDefinition) kvs)"
      using v u unknown_key_FunctionDefinition by (rule reports_default_list)
    then show ?thesis
      by (simp add: j validate_StructuredProgram_def reports_map_sum reports_both)
  next
    case in_constants
    then obtain kvs v where j: "j = JObj kvs" and v: "map_of kvs ''constants'' = Some v"
      and u: "in_dict unknown_key_ConstantDefinition v"
      using at_keyD by blast
    have "reports Extra_forbidden (dict_v validate_ConstantDefinition v)"
      using u unknown_key_ConstantDefinition by (intro reports_dict) (rule in_dict_mono)
    then have "reports Extra_forbidden
            (with_default [] ''constants'' (dict_v validate_ConstantDefinition) kvs)"
      using v by (simp add: reports_with_default)
    then show ?thesis
      by (simp add: j validate_StructuredProgram_def reports_map_sum reports_both)
  next
    case in_variables
    then obtain kvs v where j: "j = JObj kvs" and v: "map_of kvs ''variables'' = Some v"
      and u: "in_list unknown_key_VariableDefinition v"
      using at_keyD by blast
    have "reports Extra_forbidden
            (with_default [] ''variables'' (list_v validate_VariableDefinition) kvs)"
      using v u unknown_key_VariableDefinition by (rule reports_default_list)
    then show ?thesis
      by (simp add: j validate_StructuredProgram_def reports_map_sum reports_both)
  next
    case in_knowledge_base
    then obtain kvs v where j: "j = JObj kvs" and v: "map_of kvs ''knowledge_base'' = Some v"
      and u: "in_list unknown_key_KnowledgeAssertion v"
      using at_keyD by blast
    have "reports Extra_forbidden
            (with_default [] ''knowledge_base'' (list_v validate_KnowledgeEntry) kvs)"
      using v u unknown_key_KnowledgeEntry by (rule reports_default_list)
    then show ?thesis
      by (simp add: j validate_StructuredProgram_def reports_map_sum reports_both)
  next
    case in_rules
    then obtain kvs v where j: "j = JObj kvs" and v: "map_of kvs ''rules'' = Some v"
      and u: "in_list unknown_key_RuleDefinition v"
      using at_keyD by blast
    have "reports Extra_forbidden (with_default [] ''rules'' (list_v validate_RuleDefinition) kvs)"
      using v u unknown_key_RuleDefinition by (rule reports_default_list)
    then show ?thesis
      by (simp add: j validate_StructuredProgram_def reports_map_sum reports_both)
  next
    case in_verifications
    then obtain kvs v where j: "j = JObj kvs" and v: "map_of kvs ''verifications'' = Some v"
      and u: "in_list unknown_key_VerificationDefinition v"
      using at_keyD by blast
    have "reports Extra_forbidden
            (with_default [] ''verifications'' (list_v validate_VerificationDefinition) kvs)"
      using v u unknown_key_VerificationDefinition by (rule reports_default_list)
    then show ?thesis
      by (simp add: j validate_StructuredProgram_def reports_map_sum reports_both)
  next
    case in_optimization
    then obtain kvs v where j: "j = JObj kvs" and v: "map_of kvs ''optimization'' = Some v"
      and u: "unknown_key_OptimizationConfig v"
      using at_keyD by blast
    have "reports Extra_forbidden
            (with_default None ''optimization'' (optional_v validate_OptimizationConfig) kvs)"
      using v unknown_key_OptimizationConfig[OF u] unknown_key_OptimizationConfig_not_null[OF u]
      by (simp add: reports_with_default reports_optional)
    then show ?thesis
      by (simp add: j validate_StructuredProgram_def reports_map_sum reports_both)
  qed
qed

text \<open>
  C1. A document with a key that the schema does not declare, at the top level or inside
  any nested definition (sort, function, variable, knowledge assertion, rule and its
  quantified variables and implication, verification, optimization and its variables and
  objectives, constant group), is not accepted as a StructuredProgram: validation fails,
  and the errors it reports include one for a forbidden extra key.
\<close>

theorem unknown_key_rejected:
  "unknown_key doc \<Longrightarrow>
     \<exists>errors. validate_StructuredProgram doc = Inl errors
       \<and> errors \<noteq> [] \<and> Extra_forbidden \<in> snd ` set errors"
  using unknown_key_reports[of doc]
  by (cases "validate_StructuredProgram doc") (auto simp: reports_def)

lemma unknown_key_coloured_doc: "unknown_key coloured_doc"
  by (simp add: unknown_key_def coloured_doc_def at_key_def in_list_def
      unknown_key_RuleDefinition_def unknown_key_QuantifiedVariable_def stray_def
      QuantifiedVariable_fields_def)

theorem unknown_key_rejected_witness:
  "unknown_key coloured_doc \<and> isl (validate_StructuredProgram coloured_doc)"
  using unknown_key_rejected[OF unknown_key_coloured_doc] unknown_key_coloured_doc
  by auto

section \<open>What the two patterns match\<close>




























section \<open>generate and the failures of its collaborators\<close>












section \<open>Dumping, as a function of the field values\<close>

lemma exclude_none_items_map: "exclude_none_items s js = map (exclude_none s) js"
  by (induction js) auto

lemma exclude_none_values_map:
  "exclude_none_values s kvs = map (\<lambda>(k, j). (k, exclude_none s j)) kvs"
  by (induction kvs) auto

lemma exclude_none_strings: "exclude_none (TList TStr) (str_list xs) = str_list xs"
  by (simp add: str_list_def exclude_none_items_map)

lemma exclude_none_opt_str:
  "exclude_none (TOptional TStr) (or_null JStr v) = or_null JStr v"
  by (cases v) (auto simp: or_null_def)

lemma or_null_JStr_null: "or_null JStr v = JNull \<longleftrightarrow> v = None"
  by (cases v) (auto simp: or_null_def)

lemma exclude_none_SortDefinition:
  "exclude_none SortDefinition_schema (values_SortDefinition s) = dump_SortDefinition s"
  by (cases "sd_values s"; cases "sd_description s")
     (simp_all add: SortDefinition_schema_def values_SortDefinition_def dump_SortDefinition_def
        or_null_def unless_none_def exclude_none_strings str_list_def exclude_none_items_map)

lemma exclude_none_FunctionDefinition:
  "exclude_none FunctionDefinition_schema (values_FunctionDefinition f) = dump_FunctionDefinition f"
  by (cases "fd_description f")
     (simp_all add: FunctionDefinition_schema_def values_FunctionDefinition_def
        dump_FunctionDefinition_def or_null_def unless_none_def str_list_def exclude_none_items_map)

lemma exclude_none_VariableDefinition:
  "exclude_none VariableDefinition_schema (values_VariableDefinition v) = dump_VariableDefinition v"
  by (cases "vd_description v")
     (simp_all add: VariableDefinition_schema_def values_VariableDefinition_def
        dump_VariableDefinition_def or_null_def unless_none_def)

lemma exclude_none_KnowledgeAssertion:
  "exclude_none KnowledgeAssertion_schema (values_KnowledgeAssertion a) = dump_KnowledgeAssertion a"
  by (cases "ka_description a")
     (simp_all add: KnowledgeAssertion_schema_def values_KnowledgeAssertion_def
        dump_KnowledgeAssertion_def or_null_def unless_none_def)

lemma exclude_none_KnowledgeEntry:
  "exclude_none (TUnion TStr KnowledgeAssertion_schema) (values_KnowledgeEntry e) = knowledge_entry e"
proof (cases e)
  case (Inl s)
  then show ?thesis by (simp add: values_KnowledgeEntry_def knowledge_entry_def)
next
  case (Inr a)
  have "\<not> shape TStr (values_KnowledgeAssertion a)"
    by (simp add: values_KnowledgeAssertion_def)
  then show ?thesis
    using Inr by (simp add: values_KnowledgeEntry_def knowledge_entry_def exclude_none_KnowledgeAssertion)
qed

lemma exclude_none_QuantifiedVariable:
  "exclude_none QuantifiedVariable_schema (values_QuantifiedVariable q) = dump_QuantifiedVariable q"
  by (simp add: QuantifiedVariable_schema_def values_QuantifiedVariable_def dump_QuantifiedVariable_def)

lemma exclude_none_RuleImplication:
  "exclude_none RuleImplication_schema (values_RuleImplication i) = dump_RuleImplication i"
  by (simp add: RuleImplication_schema_def values_RuleImplication_def dump_RuleImplication_def)

lemma exclude_none_VerificationImplication:
  "exclude_none VerificationImplication_schema (values_VerificationImplication i) =
     dump_VerificationImplication i"
  by (simp add: VerificationImplication_schema_def values_VerificationImplication_def
      dump_VerificationImplication_def)

lemma exclude_none_ObjectiveDefinition:
  "exclude_none ObjectiveDefinition_schema (values_ObjectiveDefinition ob) = dump_ObjectiveDefinition ob"
  by (simp add: ObjectiveDefinition_schema_def values_ObjectiveDefinition_def
      dump_ObjectiveDefinition_def)

lemma exclude_none_required_field:
  "exclude_none s j \<noteq> JNull \<Longrightarrow>
     exclude_none_fields ((k, s) # fs) ((k', j) # kvs) = (k, exclude_none s j) # exclude_none_fields fs kvs"
  by simp

lemma exclude_none_optional_field:
  assumes "\<And>x. f x \<noteq> JNull" and "\<And>x. exclude_none s (f x) = g x" and "\<And>x. g x \<noteq> JNull"
  shows "exclude_none_fields ((k, TOptional s) # fs) ((k', or_null f v) # kvs) =
           unless_none k g v @ exclude_none_fields fs kvs"
  using assms by (cases v) (auto simp: or_null_def unless_none_def)

lemma exclude_none_fields_Nil: "exclude_none_fields [] kvs = []"
  by simp

lemma values_RuleImplication_not_null: "values_RuleImplication i \<noteq> JNull"
  by (simp add: values_RuleImplication_def)

lemma dump_RuleImplication_not_null: "dump_RuleImplication i \<noteq> JNull"
  by (simp add: dump_RuleImplication_def)

lemma values_VerificationImplication_not_null: "values_VerificationImplication i \<noteq> JNull"
  by (simp add: values_VerificationImplication_def)

lemma dump_VerificationImplication_not_null: "dump_VerificationImplication i \<noteq> JNull"
  by (simp add: dump_VerificationImplication_def)

lemma exclude_none_quantified_list:
  "exclude_none (TList QuantifiedVariable_schema) (JList (map values_QuantifiedVariable qs)) =
     JList (map dump_QuantifiedVariable qs)"
  by (simp add: exclude_none_items_map exclude_none_QuantifiedVariable)

lemma exclude_none_string: "exclude_none TStr (JStr x) = JStr x"
  by simp

lemma exclude_none_RuleDefinition:
  "exclude_none RuleDefinition_schema (values_RuleDefinition r) = dump_RuleDefinition r"
proof -
  have "exclude_none_fields
          [(''name'', TOptional TStr),
           (''forall'', TOptional (TList QuantifiedVariable_schema)),
           (''implies'', TOptional RuleImplication_schema),
           (''constraint'', TOptional TStr),
           (''description'', TOptional TStr)]
          [(''name'', or_null JStr (rd_name r)),
           (''forall'', or_null (\<lambda>qs. JList (map values_QuantifiedVariable qs)) (rd_forall r)),
           (''implies'', or_null values_RuleImplication (rd_implies r)),
           (''constraint'', or_null JStr (rd_constraint r)),
           (''description'', or_null JStr (rd_description r))]
        = unless_none ''name'' JStr (rd_name r)
           @ unless_none ''forall'' (\<lambda>qs. JList (map dump_QuantifiedVariable qs)) (rd_forall r)
           @ unless_none ''implies'' dump_RuleImplication (rd_implies r)
           @ unless_none ''constraint'' JStr (rd_constraint r)
           @ unless_none ''description'' JStr (rd_description r)"
    by (simp only: exclude_none_optional_field[OF _ exclude_none_string]
          exclude_none_optional_field[OF _ exclude_none_quantified_list]
          exclude_none_optional_field[OF values_RuleImplication_not_null
            exclude_none_RuleImplication dump_RuleImplication_not_null]
          exclude_none_fields_Nil json.distinct simp_thms append_Nil2)
  then show ?thesis
    by (simp add: RuleDefinition_schema_def values_RuleDefinition_def dump_RuleDefinition_def)
qed

lemma exclude_none_VerificationDefinition:
  "exclude_none VerificationDefinition_schema (values_VerificationDefinition v) =
     dump_VerificationDefinition v"
proof -
  have "exclude_none_fields
          [(''name'', TOptional TStr),
           (''constraint'', TOptional TStr),
           (''exists'', TOptional (TList QuantifiedVariable_schema)),
           (''forall'', TOptional (TList QuantifiedVariable_schema)),
           (''implies'', TOptional VerificationImplication_schema),
           (''description'', TOptional TStr)]
          [(''name'', or_null JStr (ver_name v)),
           (''constraint'', or_null JStr (ver_constraint v)),
           (''exists'', or_null (\<lambda>qs. JList (map values_QuantifiedVariable qs)) (ver_exists v)),
           (''forall'', or_null (\<lambda>qs. JList (map values_QuantifiedVariable qs)) (ver_forall v)),
           (''implies'', or_null values_VerificationImplication (ver_implies v)),
           (''description'', or_null JStr (ver_description v))]
        = unless_none ''name'' JStr (ver_name v)
           @ unless_none ''constraint'' JStr (ver_constraint v)
           @ unless_none ''exists'' (\<lambda>qs. JList (map dump_QuantifiedVariable qs)) (ver_exists v)
           @ unless_none ''forall'' (\<lambda>qs. JList (map dump_QuantifiedVariable qs)) (ver_forall v)
           @ unless_none ''implies'' dump_VerificationImplication (ver_implies v)
           @ unless_none ''description'' JStr (ver_description v)"
    by (simp only: exclude_none_optional_field[OF _ exclude_none_string]
          exclude_none_optional_field[OF _ exclude_none_quantified_list]
          exclude_none_optional_field[OF values_VerificationImplication_not_null
            exclude_none_VerificationImplication dump_VerificationImplication_not_null]
          exclude_none_fields_Nil json.distinct simp_thms append_Nil2)
  then show ?thesis
    by (simp add: VerificationDefinition_schema_def values_VerificationDefinition_def
        dump_VerificationDefinition_def)
qed

lemma exclude_none_OptimizationConfig:
  "exclude_none OptimizationConfig_schema (values_OptimizationConfig c) = dump_OptimizationConfig c"
  by (cases "oc_description c")
     (simp_all add: OptimizationConfig_schema_def values_OptimizationConfig_def
        dump_OptimizationConfig_def or_null_def unless_none_def str_list_def exclude_none_items_map
        exclude_none_VariableDefinition exclude_none_ObjectiveDefinition)

lemma exclude_none_members:
  "exclude_none (TUnion (TList TStr) (TDict TStr)) (dump_members m) = dump_members m"
  by (cases m)
     (auto simp: dump_members_def str_list_def exclude_none_items_map exclude_none_values_map
        comp_def case_prod_beta)

lemma dump_members_not_null: "dump_members m \<noteq> JNull"
  by (cases m) (auto simp: dump_members_def str_list_def)

lemma exclude_none_ConstantDefinition:
  "exclude_none ConstantDefinition_schema (values_ConstantDefinition c) = dump_ConstantDefinition c"
  by (cases "cd_description c")
     (simp_all add: ConstantDefinition_schema_def values_ConstantDefinition_def
        dump_ConstantDefinition_def or_null_def unless_none_def dump_members_not_null
        exclude_none_members del: exclude_none.simps(7))

section \<open>Dumping creates, and writes to nothing\<close>

lemma same_on_refl: "same_on lo hi h h"
  by (simp add: same_on_def)

lemma same_on_trans: "same_on lo hi h h' \<Longrightarrow> same_on lo hi h' h'' \<Longrightarrow> same_on lo hi h h''"
  by (simp add: same_on_def)

lemma same_on_subset: "same_on lo hi h h' \<Longrightarrow> lo \<le> lo' \<Longrightarrow> hi' \<le> hi \<Longrightarrow> same_on lo' hi' h h'"
  by (simp add: same_on_def)

lemma same_on_append: "hi \<le> length h \<Longrightarrow> same_on lo hi h (h @ ext)"
  by (simp add: same_on_def deref_def nth_append)

lemma same_on_update: "a < lo \<or> hi \<le> a \<Longrightarrow> same_on lo hi h (h[a := ob])"
  by (auto simp: same_on_def deref_def)

lemma same_onD: "same_on lo hi h h' \<Longrightarrow> lo \<le> a \<Longrightarrow> a < hi \<Longrightarrow> deref h' (VRef a) = deref h (VRef a)"
  by (simp add: same_on_def)

lemma deref_not_ref: "(\<And>a. v \<noteq> VRef a) \<Longrightarrow> deref h v = None"
  by (cases v) (auto simp: deref_def)

lemma kind_matches_same: "deref h' v = deref h v \<Longrightarrow> kind_matches s h' v = kind_matches s h v"
  by (induction s) auto

lemma stored_ref_below: "stored n h s (VRef a) j \<Longrightarrow> a < n"
  by (induction s arbitrary: j) (auto split: if_splits)

lemma stored_deref_same:
  assumes "stored n h s v j" and "same_on 0 n h h'"
  shows "deref h' v = deref h v"
proof (cases v)
  case (VRef a)
  then show ?thesis using assms stored_ref_below same_onD by blast
qed (simp_all add: deref_def)

lemma stored_null: "stored n h s v JNull \<Longrightarrow> v = VNone"
  by (induction s arbitrary: v) (auto split: if_splits val.splits option.splits obj.splits)

lemma stored_same:
  "stored n h s v j \<Longrightarrow> same_on 0 n h h' \<Longrightarrow> stored n h' s v j"
  "stored_items n h s xs js \<Longrightarrow> same_on 0 n h h' \<Longrightarrow> stored_items n h' s xs js"
  "stored_values n h s es kvs \<Longrightarrow> same_on 0 n h h' \<Longrightarrow> stored_values n h' s es kvs"
  "stored_fields n h fs attrs kvs \<Longrightarrow> same_on 0 n h h' \<Longrightarrow> stored_fields n h' fs attrs kvs"
proof (induction n h s v j and n h s xs js and n h s es kvs and n h fs attrs kvs
    rule: stored_stored_items_stored_values_stored_fields.induct)
  case (4 n h s v j)
  then show ?case
    by (auto simp: same_on_def split: val.splits option.splits obj.splits json.splits)
next
  case (5 n h s v j)
  then show ?case
    by (auto simp: same_on_def split: val.splits option.splits obj.splits json.splits)
next
  case (6 n h fs v j)
  then show ?case
    by (auto simp: same_on_def split: val.splits option.splits obj.splits json.splits)
next
  case (7 n h a b v j)
  have d: "deref h' v = deref h v"
    using stored_deref_same[OF "7.prems"] .
  show ?case
    using 7 kind_matches_same[OF d, of a] by (auto split: if_splits)
qed (auto split: list.splits option.splits)

lemma made_same:
  "made lo hi h v j \<Longrightarrow> same_on lo hi h h' \<Longrightarrow> made lo hi h' v j"
  "made_items lo hi h xs js \<Longrightarrow> same_on lo hi h h' \<Longrightarrow> made_items lo hi h' xs js"
  "made_entries lo hi h es kvs \<Longrightarrow> same_on lo hi h h' \<Longrightarrow> made_entries lo hi h' es kvs"
proof (induction lo hi h v j and lo hi h xs js and lo hi h es kvs
    rule: made_made_items_made_entries.induct)
  case (6 lo hi h v js)
  then show ?case
    by (auto simp: same_on_def split: val.splits option.splits obj.splits)
next
  case (7 lo hi h v kvs)
  then show ?case
    by (auto simp: same_on_def split: val.splits option.splits obj.splits)
qed (auto split: list.splits)

lemma made_widen:
  "made lo hi h v j \<Longrightarrow> lo' \<le> lo \<Longrightarrow> hi \<le> hi' \<Longrightarrow> made lo' hi' h v j"
  "made_items lo hi h xs js \<Longrightarrow> lo' \<le> lo \<Longrightarrow> hi \<le> hi' \<Longrightarrow> made_items lo' hi' h xs js"
  "made_entries lo hi h es kvs \<Longrightarrow> lo' \<le> lo \<Longrightarrow> hi \<le> hi' \<Longrightarrow> made_entries lo' hi' h es kvs"
proof (induction lo hi h v j and lo hi h xs js and lo hi h es kvs
    rule: made_made_items_made_entries.induct)
  case (6 lo hi h v js)
  then show ?case
    by (auto split: val.splits option.splits obj.splits)
next
  case (7 lo hi h v kvs)
  then show ?case
    by (auto split: val.splits option.splits obj.splits)
qed (auto split: list.splits)

lemma made_null_iff: "made lo hi h v j \<Longrightarrow> v = VNone \<longleftrightarrow> j = JNull"
  by (cases j) (auto split: val.splits)

lemma made_moved:
  assumes "made lo hi h v j" and "hi \<le> length h" and "lo' \<le> lo" and "hi \<le> hi'"
  shows "made lo' hi' (h @ ext) v j"
  using made_widen(1)[OF made_same(1)[OF assms(1) same_on_append[OF assms(2)]] assms(3,4)] .

lemma made_items_moved:
  assumes "made_items lo hi h xs js" and "hi \<le> length h" and "lo' \<le> lo" and "hi \<le> hi'"
  shows "made_items lo' hi' (h @ ext) xs js"
  using made_widen(2)[OF made_same(2)[OF assms(1) same_on_append[OF assms(2)]] assms(3,4)] .

lemma made_entries_moved:
  assumes "made_entries lo hi h es kvs" and "hi \<le> length h" and "lo' \<le> lo" and "hi \<le> hi'"
  shows "made_entries lo' hi' (h @ ext) es kvs"
  using made_widen(3)[OF made_same(3)[OF assms(1) same_on_append[OF assms(2)]] assms(3,4)] .

lemma made_new_list:
  assumes "made_items lo (length h) h ys js" and "lo \<le> length h"
  shows "made lo (Suc (length h)) (h @ [OList ys]) (VRef (length h)) (JList js)"
  using made_items_moved[OF assms(1) le_refl le_refl, of "Suc (length h)" "[OList ys]"] assms(2)
  by (simp add: deref_def)

lemma made_new_dict:
  assumes "made_entries lo (length h) h es kvs" and "lo \<le> length h"
  shows "made lo (Suc (length h)) (h @ [ODict es]) (VRef (length h)) (JObj kvs)"
  using made_entries_moved[OF assms(1) le_refl le_refl, of "Suc (length h)" "[ODict es]"] assms(2)
  by (simp add: deref_def)

lemma stored_extended:
  assumes "n \<le> length h"
  shows "stored n h s v j \<Longrightarrow> stored n (h @ ext) s v j"
    and "stored_items n h s xs js \<Longrightarrow> stored_items n (h @ ext) s xs js"
    and "stored_values n h s es kvs \<Longrightarrow> stored_values n (h @ ext) s es kvs"
    and "stored_fields n h fs attrs kvs' \<Longrightarrow> stored_fields n (h @ ext) fs attrs kvs'"
  using stored_same[OF _ same_on_append[OF assms]] by blast+

lemma alloc_simp: "alloc ob h = Some (VRef (length h), h @ [ob])"
  by (simp add: alloc_def)

lemma dump_made:
  "stored n h s v j \<Longrightarrow> n \<le> length h \<Longrightarrow>
     \<exists>w ext. dump s v h = Some (w, h @ ext)
       \<and> made (length h) (length (h @ ext)) (h @ ext) w (exclude_none s j)"
  "stored_items n h s xs js \<Longrightarrow> n \<le> length h \<Longrightarrow>
     \<exists>ys ext. dump_items s xs h = Some (ys, h @ ext)
       \<and> made_items (length h) (length (h @ ext)) (h @ ext) ys (exclude_none_items s js)"
  "stored_values n h s es kvs \<Longrightarrow> n \<le> length h \<Longrightarrow>
     \<exists>ds ext. dump_values s es h = Some (ds, h @ ext)
       \<and> made_entries (length h) (length (h @ ext)) (h @ ext) ds (exclude_none_values s kvs)"
  "stored_fields n h fs attrs fvs \<Longrightarrow> n \<le> length h \<Longrightarrow>
     \<exists>ds ext. dump_fields fs attrs h = Some (ds, h @ ext)
       \<and> made_entries (length h) (length (h @ ext)) (h @ ext) ds (exclude_none_fields fs fvs)"
proof (induction s v h and s xs h and s es h and fs attrs h
    arbitrary: j and js and kvs and fvs
    rule: dump_dump_items_dump_values_dump_fields.induct)
  case (1 v h)
  then show ?case
    by (intro exI[of _ v] exI[of _ "[]"]) (auto split: val.splits)
next
  case (2 v h)
  then show ?case
    by (intro exI[of _ v] exI[of _ "[]"]) (auto split: val.splits)
next
  case (3 s v h)
  show ?case
  proof (cases "v = VNone")
    case True
    then show ?thesis
      using "3.prems" by (intro exI[of _ VNone] exI[of _ "[]"]) simp
  next
    case False
    then have st: "stored n h s v j" using "3.prems" by simp
    then have "j \<noteq> JNull" using stored_null False by blast
    then show ?thesis
      using "3.IH"[OF False st "3.prems"(2)] False by simp
  qed
next
  case (4 s v h)
  from "4.prems"(1) obtain a xs js where v: "v = VRef a" and d: "deref h v = Some (OList xs)"
    and j: "j = JList js" and st: "stored_items n h s xs js"
    by (auto split: val.splits option.splits obj.splits json.splits)
  from "4.IH"[OF d refl st "4.prems"(2)] obtain ys ext where
    di: "dump_items s xs h = Some (ys, h @ ext)"
    and m: "made_items (length h) (length (h @ ext)) (h @ ext) ys (exclude_none_items s js)"
    by blast
  have "made (length h) (Suc (length (h @ ext))) ((h @ ext) @ [OList ys])
          (VRef (length (h @ ext))) (JList (exclude_none_items s js))"
    using m by (rule made_new_list) simp
  then show ?case
    using d di j by (intro exI[of _ "VRef (length (h @ ext))"] exI[of _ "ext @ [OList ys]"])
      (simp add: alloc_simp)
next
  case (5 s v h)
  from "5.prems"(1) obtain a es kvs where v: "v = VRef a" and d: "deref h v = Some (ODict es)"
    and j: "j = JObj kvs" and st: "stored_values n h s es kvs"
    by (auto split: val.splits option.splits obj.splits json.splits)
  from "5.IH"[OF d refl st "5.prems"(2)] obtain ds ext where
    di: "dump_values s es h = Some (ds, h @ ext)"
    and m: "made_entries (length h) (length (h @ ext)) (h @ ext) ds (exclude_none_values s kvs)"
    by blast
  have "made (length h) (Suc (length (h @ ext))) ((h @ ext) @ [ODict ds])
          (VRef (length (h @ ext))) (JObj (exclude_none_values s kvs))"
    using m by (rule made_new_dict) simp
  then show ?case
    using d di j by (intro exI[of _ "VRef (length (h @ ext))"] exI[of _ "ext @ [ODict ds]"])
      (simp add: alloc_simp)
next
  case (6 fs v h)
  from "6.prems"(1) obtain a attrs kvs where v: "v = VRef a" and d: "deref h v = Some (OModel attrs)"
    and j: "j = JObj kvs" and st: "stored_fields n h fs attrs kvs"
    by (auto split: val.splits option.splits obj.splits json.splits)
  from "6.IH"[OF d refl st "6.prems"(2)] obtain ds ext where
    di: "dump_fields fs attrs h = Some (ds, h @ ext)"
    and m: "made_entries (length h) (length (h @ ext)) (h @ ext) ds (exclude_none_fields fs kvs)"
    by blast
  have "made (length h) (Suc (length (h @ ext))) ((h @ ext) @ [ODict ds])
          (VRef (length (h @ ext))) (JObj (exclude_none_fields fs kvs))"
    using m by (rule made_new_dict) simp
  then show ?case
    using d di j by (intro exI[of _ "VRef (length (h @ ext))"] exI[of _ "ext @ [ODict ds]"])
      (simp add: alloc_simp)
next
  case (7 a b v h)
  show ?case
  proof (cases "kind_matches a h v")
    case True
    then have "shape a j" "stored n h a v j" using "7.prems"(1) by (auto split: if_splits)
    then show ?thesis
      using "7.IH"(1)[OF True _ "7.prems"(2)] True by simp
  next
    case False
    then have "\<not> shape a j" "stored n h b v j" using "7.prems"(1) by (auto split: if_splits)
    then show ?thesis
      using "7.IH"(2)[OF False _ "7.prems"(2)] False by simp
  qed
next
  case (8 s h)
  then show ?case by (intro exI[of _ "[]"]) simp
next
  case (9 s x xs h)
  from "9.prems"(1) obtain j js' where js: "js = j # js'" and sx: "stored n h s x j"
    and sxs: "stored_items n h s xs js'"
    by (auto split: list.splits)
  from "9.IH"(1)[OF sx "9.prems"(2)] obtain y e1 where
    dx: "dump s x h = Some (y, h @ e1)"
    and my: "made (length h) (length (h @ e1)) (h @ e1) y (exclude_none s j)"
    by blast
  have sxs': "stored_items n (h @ e1) s xs js'"
    using stored_extended(2)[OF "9.prems"(2) sxs] .
  from "9.IH"(2)[OF dx refl sxs'] "9.prems"(2) obtain ys e2 where
    dxs: "dump_items s xs (h @ e1) = Some (ys, (h @ e1) @ e2)"
    and mys: "made_items (length (h @ e1)) (length ((h @ e1) @ e2)) ((h @ e1) @ e2) ys
                (exclude_none_items s js')"
    by auto
  have "made (length h) (length ((h @ e1) @ e2)) ((h @ e1) @ e2) y (exclude_none s j)"
    using my by (rule made_moved) simp_all
  moreover have "made_items (length h) (length ((h @ e1) @ e2)) ((h @ e1) @ e2) ys
                (exclude_none_items s js')"
    using mys by (rule made_widen(2)) simp_all
  ultimately show ?case
    using dx dxs js by (intro exI[of _ "y # ys"] exI[of _ "e1 @ e2"]) simp
next
  case (10 s h)
  then show ?case by (intro exI[of _ "[]"]) simp
next
  case (11 s k x es h)
  from "11.prems"(1) obtain j kvs' where kvs: "kvs = (k, j) # kvs'" and sx: "stored n h s x j"
    and sxs: "stored_values n h s es kvs'"
    by (auto split: list.splits)
  from "11.IH"(1)[OF sx "11.prems"(2)] obtain y e1 where
    dx: "dump s x h = Some (y, h @ e1)"
    and my: "made (length h) (length (h @ e1)) (h @ e1) y (exclude_none s j)"
    by blast
  have sxs': "stored_values n (h @ e1) s es kvs'"
    using stored_extended(3)[OF "11.prems"(2) sxs] .
  from "11.IH"(2)[OF dx refl sxs'] "11.prems"(2) obtain ds e2 where
    dxs: "dump_values s es (h @ e1) = Some (ds, (h @ e1) @ e2)"
    and mys: "made_entries (length (h @ e1)) (length ((h @ e1) @ e2)) ((h @ e1) @ e2) ds
                (exclude_none_values s kvs')"
    by auto
  have "made (length h) (length ((h @ e1) @ e2)) ((h @ e1) @ e2) y (exclude_none s j)"
    using my by (rule made_moved) simp_all
  moreover have "made_entries (length h) (length ((h @ e1) @ e2)) ((h @ e1) @ e2) ds
                (exclude_none_values s kvs')"
    using mys by (rule made_widen(3)) simp_all
  ultimately show ?case
    using dx dxs kvs by (intro exI[of _ "(k, y) # ds"] exI[of _ "e1 @ e2"]) simp
next
  case (12 attrs h)
  then show ?case by (intro exI[of _ "[]"]) simp
next
  case (13 k s fs attrs h)
  from "13.prems"(1) obtain j fvs' x where fvs: "fvs = (k, j) # fvs'"
    and mx: "map_of attrs k = Some x" and sx: "stored n h s x j"
    and sfs: "stored_fields n h fs attrs fvs'"
    by (auto split: list.splits option.splits)
  from "13.IH"(1)[OF mx sx "13.prems"(2)] obtain y e1 where
    dx: "dump s x h = Some (y, h @ e1)"
    and my: "made (length h) (length (h @ e1)) (h @ e1) y (exclude_none s j)"
    by blast
  have sfs': "stored_fields n (h @ e1) fs attrs fvs'"
    using stored_extended(4)[OF "13.prems"(2) sfs] .
  from "13.IH"(2)[OF mx dx refl sfs'] "13.prems"(2) obtain ds e2 where
    dxs: "dump_fields fs attrs (h @ e1) = Some (ds, (h @ e1) @ e2)"
    and mys: "made_entries (length (h @ e1)) (length ((h @ e1) @ e2)) ((h @ e1) @ e2) ds
                (exclude_none_fields fs fvs')"
    by auto
  have my': "made (length h) (length ((h @ e1) @ e2)) ((h @ e1) @ e2) y (exclude_none s j)"
    using my by (rule made_moved) simp_all
  have mys': "made_entries (length h) (length ((h @ e1) @ e2)) ((h @ e1) @ e2) ds
                (exclude_none_fields fs fvs')"
    using mys by (rule made_widen(3)) simp_all
  have n: "y = VNone \<longleftrightarrow> exclude_none s j = JNull"
    using my by (rule made_null_iff)
  show ?case
    using dx dxs fvs mx my' mys' n
    by (intro exI[of _ "if y = VNone then ds else (k, y) # ds"] exI[of _ "e1 @ e2"]) simp
qed

section \<open>The statements of to\_dsl\_dict, one by one\<close>

lemma made_items_snoc:
  "made_items lo hi h xs js \<Longrightarrow> made lo hi h x j \<Longrightarrow> made_items lo hi h (xs @ [x]) (js @ [j])"
  by (induction js arbitrary: xs) (auto split: list.splits)

lemma stored_model_deref:
  "stored n h (TModel fs) v j \<Longrightarrow> \<exists>a attrs. v = VRef a \<and> a < n \<and> deref h v = Some (OModel attrs)"
  by (auto split: val.splits option.splits obj.splits)

lemma deref_update_same: "a < length h \<Longrightarrow> deref (h[a := ob]) (VRef a) = Some ob"
  by (simp add: deref_def)

lemma append_store:
  assumes "ke < length h" and "h ! ke = OList ws"
  shows "append (VRef ke) d h = Some ((), h[ke := OList (ws @ [d])])"
  using assms by (simp add: append_def deref_def)

lemma knowledge_loop_made:
  assumes "stored_items n h (TUnion TStr KnowledgeAssertion_schema) xs js"
    and "n \<le> ke" and "ke < length h" and "h ! ke = OList ws"
    and "made_items (Suc ke) (length h) h ws ds"
  shows "\<exists>h' ws'. knowledge_loop (VRef ke) xs h = Some ((), h')
      \<and> length h \<le> length h'
      \<and> (\<forall>a < length h. a \<noteq> ke \<longrightarrow> h' ! a = h ! a)
      \<and> h' ! ke = OList ws'
      \<and> made_items (Suc ke) (length h') h' ws'
            (ds @ exclude_none_items (TUnion TStr KnowledgeAssertion_schema) js)"
  using assms
proof (induction xs arbitrary: h ws ds js)
  case Nil
  then show ?case by auto
next
  case (Cons x xs)
  from Cons.prems(1) obtain j js' where js: "js = j # js'"
    and sx: "stored n h (TUnion TStr KnowledgeAssertion_schema) x j"
    and sxs: "stored_items n h (TUnion TStr KnowledgeAssertion_schema) xs js'"
    by (auto split: list.splits)
  have nh: "n \<le> length h" using Cons.prems(2,3) by simp
  show ?case
  proof (cases "shape TStr j")
    case True
    then obtain s where x: "x = VStr s" and j: "j = JStr s"
      using sx by (auto split: val.splits json.splits)
    let ?h1 = "h[ke := OList (ws @ [x])]"
    have ap: "append (VRef ke) x h = Some ((), ?h1)"
      using Cons.prems(3,4) by (rule append_store)
    have same: "same_on 0 n h ?h1"
      using Cons.prems(2) by (intro same_on_update) simp
    have s1: "stored_items n ?h1 (TUnion TStr KnowledgeAssertion_schema) xs js'"
      using stored_same(2)[OF sxs same] .
    have m1: "made_items (Suc ke) (length ?h1) ?h1 (ws @ [x]) (ds @ [JStr s])"
    proof (rule made_items_snoc)
      show "made_items (Suc ke) (length ?h1) ?h1 ws ds"
        using made_same(2)[OF Cons.prems(5), of ?h1] by (simp add: same_on_update)
      show "made (Suc ke) (length ?h1) ?h1 x (JStr s)"
        using x by simp
    qed
    from Cons.IH[OF s1 Cons.prems(2) _ _ m1] Cons.prems(3) obtain h' ws' where
      r: "knowledge_loop (VRef ke) xs ?h1 = Some ((), h')"
      "length ?h1 \<le> length h'"
      "\<forall>a < length ?h1. a \<noteq> ke \<longrightarrow> h' ! a = ?h1 ! a"
      "h' ! ke = OList ws'"
      "made_items (Suc ke) (length h') h' ws'
         ((ds @ [JStr s]) @ exclude_none_items (TUnion TStr KnowledgeAssertion_schema) js')"
      by auto
    have "knowledge_loop (VRef ke) (x # xs) h = Some ((), h')"
      using x ap r(1) by (simp add: deref_def)
    then show ?thesis
      using r js j by (intro exI[of _ h'] exI[of _ ws']) auto
  next
    case False
    then have sk: "stored n h KnowledgeAssertion_schema x j"
      using sx by (auto split: if_splits)
    then obtain a attrs where x: "x = VRef a" "a < n" and dx: "deref h x = Some (OModel attrs)"
      using stored_model_deref unfolding KnowledgeAssertion_schema_def by blast
    from dump_made(1)[OF sk nh] obtain d ext where
      dd: "dump KnowledgeAssertion_schema x h = Some (d, h @ ext)"
      and md: "made (length h) (length (h @ ext)) (h @ ext) d
                 (exclude_none KnowledgeAssertion_schema j)"
      by blast
    let ?h1 = "(h @ ext)[ke := OList (ws @ [d])]"
    have ap: "append (VRef ke) d (h @ ext) = Some ((), ?h1)"
      using Cons.prems(3,4) by (intro append_store) (simp_all add: nth_append)
    have same: "same_on 0 n (h @ ext) ?h1"
      using Cons.prems(2) by (intro same_on_update) simp
    have s1: "stored_items n ?h1 (TUnion TStr KnowledgeAssertion_schema) xs js'"
      using stored_same(2)[OF stored_extended(2)[OF nh sxs] same] .
    have m1: "made_items (Suc ke) (length ?h1) ?h1 (ws @ [d])
                (ds @ [exclude_none KnowledgeAssertion_schema j])"
    proof (rule made_items_snoc)
      have "made_items (Suc ke) (length (h @ ext)) (h @ ext) ws ds"
        using Cons.prems(5) by (rule made_items_moved) simp_all
      then show "made_items (Suc ke) (length ?h1) ?h1 ws ds"
        using made_same(2)[of "Suc ke" "length (h @ ext)" "h @ ext" ws ds ?h1]
        by (simp add: same_on_update)
      have "made (Suc ke) (length (h @ ext)) (h @ ext) d (exclude_none KnowledgeAssertion_schema j)"
        using md Cons.prems(3) by (intro made_widen(1)[OF md]) simp_all
      then show "made (Suc ke) (length ?h1) ?h1 d (exclude_none KnowledgeAssertion_schema j)"
        using made_same(1)[of "Suc ke" "length (h @ ext)" "h @ ext" d _ ?h1]
        by (simp add: same_on_update)
    qed
    have ke1: "ke < length ?h1" using Cons.prems(3) by simp
    have at1: "?h1 ! ke = OList (ws @ [d])" using Cons.prems(3) by simp
    from Cons.IH[OF s1 Cons.prems(2) ke1 at1 m1] obtain h' ws' where
      r: "knowledge_loop (VRef ke) xs ?h1 = Some ((), h')"
      "length ?h1 \<le> length h'"
      "\<forall>a < length ?h1. a \<noteq> ke \<longrightarrow> h' ! a = ?h1 ! a"
      "h' ! ke = OList ws'"
      "made_items (Suc ke) (length h') h' ws'
         ((ds @ [exclude_none KnowledgeAssertion_schema j])
            @ exclude_none_items (TUnion TStr KnowledgeAssertion_schema) js')"
      by blast
    have "knowledge_loop (VRef ke) (x # xs) h = Some ((), h')"
      using dx dd ap r(1) by simp
    moreover have "\<forall>a < length h. a \<noteq> ke \<longrightarrow> h' ! a = h ! a"
      using r(3) by (auto simp: nth_append)
    moreover have "length h \<le> length h'"
      using r(2) by simp
    ultimately show ?thesis
      using r(4,5) js False by (intro exI[of _ h'] exI[of _ ws']) simp
  qed
qed

lemma prefix_same_on: "prefix h h' \<Longrightarrow> hi \<le> length h \<Longrightarrow> same_on lo hi h h'"
  by (auto simp: prefix_def same_on_append)

lemma made_carried:
  assumes "made lo hi h d j" and "hi \<le> length h" and "prefix h h'"
  shows "made lo (length h') h' d j"
proof -
  from assms(3) obtain e where e: "h' = h @ e" by (auto simp: prefix_def)
  show ?thesis
    unfolding e using assms(2) by (intro made_moved[OF assms(1)]) simp_all
qed

lemma stored_carried:
  assumes "stored n h s v j" and "n \<le> length h" and "prefix h h'"
  shows "stored n h' s v j"
  using stored_same(1)[OF assms(1) prefix_same_on[OF assms(3,2)]] .

lemma prefixI_nth:
  assumes "length h \<le> length h'" and "\<forall>a < length h. h' ! a = h ! a"
  shows "prefix h h'"
proof -
  have "take (length h) h' = h"
    using assms by (intro nth_equalityI) auto
  then show ?thesis
    by (metis take_is_prefix)
qed

lemma dump_stage:
  assumes "stored n h s v j" and "n \<le> length h"
  shows "\<exists>w h'. dump s v h = Some (w, h') \<and> prefix h h'
           \<and> made (length h) (length h') h' w (exclude_none s j)"
  using dump_made(1)[OF assms] by (metis prefixI)

lemma dump_each_eq: "dump_each s v h = dump (TList s) v h"
  by (auto simp: dump_each_def and_then_def elements_def split: option.splits obj.splits)

lemma dump_constants_eq: "dump_constants v h = dump (TDict ConstantDefinition_schema) v h"
  by (auto simp: dump_constants_def and_then_def dict_items_def split: option.splits obj.splits)

lemma dump_each_stage:
  assumes "stored n h (TList s) v (JList js)" and "n \<le> length h"
  shows "\<exists>w h'. dump_each s v h = Some (w, h') \<and> prefix h h'
           \<and> made (length h) (length h') h' w (JList (map (exclude_none s) js))"
  using dump_stage[OF assms] by (simp add: dump_each_eq exclude_none_items_map)

lemma dump_constants_stage:
  assumes "stored n h (TDict ConstantDefinition_schema) v (JObj kvs)" and "n \<le> length h"
  shows "\<exists>w h'. dump_constants v h = Some (w, h') \<and> prefix h h'
           \<and> made (length h) (length h') h' w
                (JObj (map (\<lambda>(k, j). (k, exclude_none ConstantDefinition_schema j)) kvs))"
  using dump_stage[OF assms] by (simp add: dump_constants_eq exclude_none_values_map)

lemma stored_items_strings:
  "stored_items n h TStr ys (map JStr xs) \<Longrightarrow> ys = map VStr xs"
  by (induction xs arbitrary: ys) (auto split: val.splits list.splits elim: stored_items.elims)

lemma made_items_strings: "made_items lo hi h (map VStr xs) (map JStr xs)"
  by (induction xs) auto

lemma copy_actions_stage:
  assumes "stored n h (TList TStr) v (str_list xs)"
  shows "\<exists>w h'. copy_actions v h = Some (w, h') \<and> prefix h h'
           \<and> made (length h) (length h') h' w
                (str_list (if xs \<noteq> [] then xs else [''verify_conditions'']))"
proof -
  from assms obtain ys where d: "deref h v = Some (OList ys)"
    and st: "stored_items n h TStr ys (map JStr xs)"
    by (auto simp: str_list_def split: val.splits option.splits obj.splits)
  have ys: "ys = map VStr xs" using st by (rule stored_items_strings)
  let ?zs = "if xs \<noteq> [] then xs else [''verify_conditions'']"
  have c: "copy_actions v h = Some (VRef (length h), h @ [OList (map VStr ?zs)])"
    using d ys by (simp add: copy_actions_def and_then_def elements_def alloc_simp)
  have "made (length h) (Suc (length h)) (h @ [OList (map VStr ?zs)]) (VRef (length h))
          (JList (map JStr ?zs))"
    by (rule made_new_list) (simp_all add: made_items_strings)
  then show ?thesis
    using c by (intro exI[of _ "VRef (length h)"] exI[of _ "h @ [OList (map VStr ?zs)]"])
      (simp add: str_list_def)
qed

lemma knowledge_stage:
  assumes "stored_items n (h @ [OList []]) (TUnion TStr KnowledgeAssertion_schema) xs js"
    and "n \<le> length h"
  shows "\<exists>h'. knowledge_loop (VRef (length h)) xs (h @ [OList []]) = Some ((), h')
           \<and> prefix (h @ [OList []]) (h'[length h := OList []]) \<and> length h < length h'
           \<and> prefix h h'
           \<and> made (length h) (length h') h' (VRef (length h))
                (JList (map (exclude_none (TUnion TStr KnowledgeAssertion_schema)) js))"
proof -
  let ?h1 = "h @ [OList []]"
  have m0: "made_items (Suc (length h)) (length ?h1) ?h1 [] []" by simp
  from knowledge_loop_made[OF assms(1) assms(2) _ _ m0] obtain h' ws' where
    r: "knowledge_loop (VRef (length h)) xs ?h1 = Some ((), h')"
    "length ?h1 \<le> length h'"
    "\<forall>a < length ?h1. a \<noteq> length h \<longrightarrow> h' ! a = ?h1 ! a"
    "h' ! length h = OList ws'"
    "made_items (Suc (length h)) (length h') h' ws'
       ([] @ exclude_none_items (TUnion TStr KnowledgeAssertion_schema) js)"
    by auto
  have p: "prefix h h'"
    using r(2,3) by (intro prefixI_nth) (auto simp: nth_append)
  have p1: "prefix ?h1 (h'[length h := OList []])"
    using r(2,3) by (intro prefixI_nth) (auto simp: nth_append nth_list_update)
  have "made_items (length h) (length h') h' ws'
          (map (exclude_none (TUnion TStr KnowledgeAssertion_schema)) js)"
    using made_widen(2)[OF r(5), of "length h" "length h'"] by (simp add: exclude_none_items_map)
  then have "made (length h) (length h') h' (VRef (length h))
                (JList (map (exclude_none (TUnion TStr KnowledgeAssertion_schema)) js))"
    using r(2,4) by (simp add: deref_def)
  then show ?thesis
    using r(1,2) p p1 by auto
qed

end
